theory Spec2Isabelle
  imports Main "HOL-Library.Sublist" "HOL-Library.Log_Nat"
begin

section \<open>The fruit-spinner points endpoint\<close>

text \<open>
  The development embeds the handler \<^verbatim>\<open>POST\<close> of the fruit-spinner route
  (\<^verbatim>\<open>src/unnamed/part_000\<close>, lines 1 to 85). The handler validates the request body,
  then runs a loop of at most \<^verbatim>\<open>MAX_RETRIES\<close> database transactions; each transaction
  reads the user row and updates it under the condition that
  \<^verbatim>\<open>lastPointsUpdateTimestamp\<close> still has the value that was read.

  The amounts and the counters are JavaScript numbers, that is IEEE 754 doubles, and the
  sums are rounded as doubles are. A \<^verbatim>\<open>Date\<close> is its count of milliseconds, an \<open>int\<close>.
\<close>

subsection \<open>JavaScript numbers\<close>

text \<open>
  A finite double is a rational \<open>n * 2 ^ q\<close> with \<open>\<bar>n\<bar> < 2 ^ 53\<close> and
  \<open>- 1074 \<le> q\<close>, below \<open>2 ^ 1024\<close> in size. The result of an operation is the exact
  result rounded to the nearest such value, a tie going to the even \<open>n\<close>.

  \<open>flog2 x\<close> is the exponent of the largest power of two that is at most \<open>x\<close>, for
  \<open>0 < x\<close>; \<open>quantum x\<close> is the exponent of the spacing of the doubles around \<open>x\<close>.
\<close>

definition flog2 :: "rat \<Rightarrow> int" where
  "flog2 x = (if 1 \<le> x then bitlen \<lfloor>x\<rfloor> - 1 else - bitlen (\<lceil>1 / x\<rceil> - 1))"

definition round_half_even :: "rat \<Rightarrow> int" where
  "round_half_even x =
     (if x - of_int \<lfloor>x\<rfloor> < 1 / 2 then \<lfloor>x\<rfloor>
      else if 1 / 2 < x - of_int \<lfloor>x\<rfloor> then \<lfloor>x\<rfloor> + 1
      else if even \<lfloor>x\<rfloor> then \<lfloor>x\<rfloor> else \<lfloor>x\<rfloor> + 1)"

definition quantum :: "rat \<Rightarrow> int" where
  "quantum x = max (flog2 \<bar>x\<bar> - 52) (- 1074)"

definition round_double :: "rat \<Rightarrow> rat" where
  "round_double x =
     (if x = 0 then 0
      else of_int (round_half_even (x / 2 powi quantum x)) * 2 powi quantum x)"

definition exactly_representable :: "rat \<Rightarrow> bool" where
  "exactly_representable x = (round_double x = x \<and> \<bar>x\<bar> < 2 ^ 1024)"

typedef double = "{x :: rat. exactly_representable x}"
  morphisms rat_of_double double_of_rat
  by (intro exI[of _ 0]) (simp add: exactly_representable_def round_double_def)

text \<open>
  A number is a finite double, an infinity or \<^verbatim>\<open>NaN\<close>. The two zeros of IEEE 754 are one
  value here: they compare equal, and JSON prints both as \<^verbatim>\<open>0\<close>.
\<close>

datatype number = Finite double | PosInfinity | NegInfinity | NaN

text \<open>The number an exact result becomes: rounded, an infinity when out of range.\<close>

definition to_number :: "rat \<Rightarrow> number" where
  "to_number x =
     (if 2 ^ 1024 \<le> round_double x then PosInfinity
      else if round_double x \<le> - (2 ^ 1024) then NegInfinity
      else Finite (double_of_rat (round_double x)))"

text \<open>The exact value of a finite number.\<close>

fun rat_of :: "number \<Rightarrow> rat option" where
  "rat_of (Finite a) = Some (rat_of_double a)"
| "rat_of PosInfinity = None"
| "rat_of NegInfinity = None"
| "rat_of NaN = None"

text \<open>The sum \<^verbatim>\<open>x + y\<close> of two numbers.\<close>

fun js_add :: "number \<Rightarrow> number \<Rightarrow> number" where
  "js_add (Finite a) (Finite b) = to_number (rat_of_double a + rat_of_double b)"
| "js_add NaN y = NaN"
| "js_add x NaN = NaN"
| "js_add PosInfinity NegInfinity = NaN"
| "js_add NegInfinity PosInfinity = NaN"
| "js_add PosInfinity y = PosInfinity"
| "js_add x PosInfinity = PosInfinity"
| "js_add NegInfinity y = NegInfinity"
| "js_add x NegInfinity = NegInfinity"

text \<open>The comparison \<^verbatim>\<open>x < 0\<close> of a number.\<close>

fun js_less_zero :: "number \<Rightarrow> bool" where
  "js_less_zero (Finite a) = (rat_of_double a < 0)"
| "js_less_zero NegInfinity = True"
| "js_less_zero PosInfinity = False"
| "js_less_zero NaN = False"

text \<open>The number that a whole-number literal denotes.\<close>

definition number_of_int :: "int \<Rightarrow> number" where
  "number_of_int n = to_number (of_int n)"

text \<open>
  What the field \<^verbatim>\<open>points\<close> of a parsed body can hold where a number is declared: nothing
  (\<^verbatim>\<open>undefined\<close>), \<^verbatim>\<open>null\<close>, or a number, whole or fractional, of any size.
  \<open>less_than_zero\<close> is the comparison \<^verbatim>\<open>points < 0\<close>, which converts \<^verbatim>\<open>null\<close> to 0 and
  \<^verbatim>\<open>undefined\<close> to \<^verbatim>\<open>NaN\<close>.
\<close>

datatype js_value = Undefined | Null | Number number

fun less_than_zero :: "js_value \<Rightarrow> bool" where
  "less_than_zero (Number x) = js_less_zero x"
| "less_than_zero Null = False"
| "less_than_zero Undefined = False"

definition num :: "int \<Rightarrow> js_value" where
  "num n = Number (number_of_int n)"

subsection \<open>Data\<close>

text \<open>The columns of a user row that the handler reads or writes.\<close>

record user =
  points :: number
  pointsBalance :: number
  lastPointsUpdateTimestamp :: int

text \<open>The table of users, keyed by the unique column \<^verbatim>\<open>telegramId\<close>.\<close>

type_synonym database = "string \<rightharpoonup> user"

text \<open>
  \<^verbatim>\<open>interface FruitSpinnerRequestBody\<close>. A \<^verbatim>\<open>telegramId\<close> that the JSON body does not
  carry is \<^verbatim>\<open>undefined\<close> after destructuring, here \<open>None\<close>.
\<close>

record FruitSpinnerRequestBody =
  telegramId :: "string option"
  body_points :: js_value

text \<open>
  A thrown value: an instance of \<^verbatim>\<open>Error\<close> with its message, or any other value
  (the \<^verbatim>\<open>catch\<close> clause tests \<^verbatim>\<open>error instanceof Error\<close>).
\<close>

datatype thrown = Error string | NonError

text \<open>The JSON bodies the handler sends: an error object, or the result of the transaction.\<close>

datatype body =
  ErrorBody string
  | ResultBody bool string number number js_value

record response =
  status :: nat
  body :: body

definition NextResponse_json :: "body \<Rightarrow> nat \<Rightarrow> response" where
  "NextResponse_json b s = \<lparr>status = s, body = b\<rparr>"

definition MAX_RETRIES :: nat where
  "MAX_RETRIES = 3"

definition RETRY_DELAY :: nat where
  "RETRY_DELAY = 100"

subsection \<open>The persistence gateway\<close>

text \<open>\<^verbatim>\<open>prisma.user.findUnique({ where: { telegramId } })\<close>\<close>

definition user_findUnique :: "database \<Rightarrow> string \<Rightarrow> user option" where
  "user_findUnique d tid = d tid"

text \<open>
  The error of \<^verbatim>\<open>prisma.user.update\<close> when no row satisfies the \<^verbatim>\<open>where\<close> clause
  (Prisma's error P2025, raised by the client library).
\<close>

definition record_not_found :: thrown where
  "record_not_found =
     Error ''An operation failed because it depends on one or more records that were required but not found. Record to update not found.''"

text \<open>
  The error of \<^verbatim>\<open>prisma.user.update\<close> when the increment is not a number: the client
  library validates the arguments and refuses before any statement is sent.
\<close>

definition invalid_increment :: thrown where
  "invalid_increment = Error ''Invalid prisma.user.update() invocation: Argument increment must not be null.''"

text \<open>
  \<^verbatim>\<open>prisma.user.update\<close> of lines 36 to 46: one statement that selects the row by
  \<^verbatim>\<open>telegramId\<close> and \<^verbatim>\<open>lastPointsUpdateTimestamp\<close>, adds \<^verbatim>\<open>points\<close> to both counters
  (an addition of doubles, made by the database) and writes the clock reading
  \<^verbatim>\<open>new Date()\<close>. It returns the updated row.
\<close>

definition user_update ::
  "database \<Rightarrow> string \<Rightarrow> int \<Rightarrow> js_value \<Rightarrow> int \<Rightarrow> thrown + user \<times> database" where
  "user_update d tid stamp pts date =
     (case pts of
        Number x \<Rightarrow>
          (case d tid of
             None \<Rightarrow> Inl record_not_found
           | Some u \<Rightarrow>
               if lastPointsUpdateTimestamp u = stamp then
                 let updatedUser = u\<lparr>points := js_add (points u) x,
                                     pointsBalance := js_add (pointsBalance u) x,
                                     lastPointsUpdateTimestamp := date\<rparr>
                 in Inr (updatedUser, d(tid \<mapsto> updatedUser))
               else Inl record_not_found)
      | _ \<Rightarrow> Inl invalid_increment)"

subsection \<open>One transaction attempt\<close>

text \<open>
  What the surroundings do during one attempt: the gateway may reject the read or the
  update with an error of its own, other writers may commit between the read and the
  update, and the clock gives the value of \<^verbatim>\<open>new Date()\<close>.
\<close>

record attempt_env =
  find_fault :: "thrown option"
  concurrent :: "database \<Rightarrow> database"
  update_fault :: "thrown option"
  now :: int

text \<open>
  The callback of \<^verbatim>\<open>prisma.$transaction\<close>, lines 26 to 55. A throw aborts the
  transaction: nothing of its own is written.
\<close>

text \<open>The object the callback returns, lines 48 to 54.\<close>

definition award_result :: "user \<Rightarrow> js_value \<Rightarrow> body" where
  "award_result updatedUser pts =
     ResultBody True ''Fruit spinner points added successfully''
       (points updatedUser) (pointsBalance updatedUser) pts"

definition transaction ::
  "attempt_env \<Rightarrow> string \<Rightarrow> js_value \<Rightarrow> database \<Rightarrow> (thrown + body) \<times> database" where
  "transaction e tid pts d =
     (case find_fault e of
        Some x \<Rightarrow> (Inl x, d)
      | None \<Rightarrow>
          (case user_findUnique d tid of
             None \<Rightarrow> (Inl (Error ''User not found''), d)
           | Some dbUser \<Rightarrow>
               (case update_fault e of
                  Some x \<Rightarrow> (Inl x, concurrent e d)
                | None \<Rightarrow>
                    (case user_update (concurrent e d) tid
                            (lastPointsUpdateTimestamp dbUser) pts (now e) of
                       Inl x \<Rightarrow> (Inl x, concurrent e d)
                     | Inr (updatedUser, d') \<Rightarrow>
                         (Inr (award_result updatedUser pts), d')))))"

subsection \<open>The retry loop\<close>

text \<open>\<^verbatim>\<open>String.prototype.includes\<close>: the second string occurs in the first.\<close>

fun str_includes :: "string \<Rightarrow> string \<Rightarrow> bool" where
  "str_includes [] t = (t = [])"
| "str_includes (c # s) t = (prefix t (c # s) \<or> str_includes s t)"

text \<open>Line 59: \<^verbatim>\<open>error instanceof Error && error.message.includes('User not found')\<close>.\<close>

definition is_user_not_found :: "thrown \<Rightarrow> bool" where
  "is_user_not_found x =
     (case x of Error m \<Rightarrow> str_includes m ''User not found'' | NonError \<Rightarrow> False)"

text \<open>
  What a call can change or leave behind: the database, the lines written with
  \<^verbatim>\<open>console.error\<close>, the delays passed to \<^verbatim>\<open>setTimeout\<close>, and the number of
  transactions opened.
\<close>

record world =
  db :: database
  console :: "(string \<times> thrown) list"
  sleeps :: "nat list"
  transactions :: nat

text \<open>
  The \<^verbatim>\<open>catch\<close> clause of lines 58 to 76. It returns a response, or no response and
  the incremented counter after the backoff wait.
\<close>

definition catch_clause :: "nat \<Rightarrow> thrown \<Rightarrow> world \<Rightarrow> response option \<times> nat \<times> world" where
  "catch_clause retries error w =
     (if is_user_not_found error then
        (Some (NextResponse_json (ErrorBody ''User not found'') 404), retries, w)
      else if retries \<ge> MAX_RETRIES - 1 then
        (Some (NextResponse_json (ErrorBody ''Failed to add points after multiple attempts'') 500),
         retries,
         w\<lparr>console := console w @ [(''Max retries reached for fruit spinner points:'', error)]\<rparr>)
      else
        (None, Suc retries, w\<lparr>sleeps := sleeps w @ [RETRY_DELAY * 2 ^ Suc retries]\<rparr>))"

text \<open>
  The \<^verbatim>\<open>while\<close> loop of lines 24 to 77; \<open>env retries\<close> is the surroundings of the attempt
  made when the counter is \<open>retries\<close>. Leaving the loop by its condition returns no
  response (\<open>None\<close>).
\<close>

function award_loop ::
  "(nat \<Rightarrow> attempt_env) \<Rightarrow> string \<Rightarrow> js_value \<Rightarrow> nat \<Rightarrow> world \<Rightarrow> response option \<times> world" where
  "award_loop env tid pts retries w =
     (if retries < MAX_RETRIES then
        (case transaction (env retries) tid pts (db w) of
           (Inr result, d') \<Rightarrow>
             (Some (NextResponse_json result 200),
              w\<lparr>db := d', transactions := Suc (transactions w)\<rparr>)
         | (Inl error, d') \<Rightarrow>
             (case catch_clause retries error
                     (w\<lparr>db := d', transactions := Suc (transactions w)\<rparr>) of
                (Some r, _, w') \<Rightarrow> (Some r, w')
              | (None, retries', w') \<Rightarrow> award_loop env tid pts retries' w'))
      else (None, w))"
  by pat_completeness auto
termination
  by (relation "measure (\<lambda>(env, tid, pts, retries, w). MAX_RETRIES - retries)")
    (auto simp: catch_clause_def split: if_splits)

subsection \<open>The handler\<close>

text \<open>
  \<^verbatim>\<open>POST\<close>. The request is the outcome of \<^verbatim>\<open>await req.json()\<close> with the destructuring:
  a throw (a body that is not JSON), or the two fields.
\<close>

definition POST ::
  "(nat \<Rightarrow> attempt_env) \<Rightarrow> thrown + FruitSpinnerRequestBody \<Rightarrow> world \<Rightarrow> response option \<times> world" where
  "POST env req w =
     (case req of
        Inl error \<Rightarrow>
          (Some (NextResponse_json (ErrorBody ''Internal server error'') 500),
           w\<lparr>console := console w @ [(''Error processing fruit spinner points:'', error)]\<rparr>)
      | Inr b \<Rightarrow>
          (case telegramId b of
             None \<Rightarrow> (Some (NextResponse_json (ErrorBody ''Invalid request data'') 400), w)
           | Some tid \<Rightarrow>
               if tid = [] \<or> body_points b = Undefined \<or> less_than_zero (body_points b) then
                 (Some (NextResponse_json (ErrorBody ''Invalid request data'') 400), w)
               else award_loop env tid (body_points b) 0 w))"

subsection \<open>The attempts of a call\<close>

text \<open>
  The world at the start of attempt number \<open>k\<close> of a call, when each earlier attempt was
  followed by a retry; what that attempt's transaction gives; and whether the
  \<^verbatim>\<open>catch\<close> clause lets an outcome be followed by a retry, the counter permitting.
\<close>

fun world_at :: "(nat \<Rightarrow> attempt_env) \<Rightarrow> string \<Rightarrow> js_value \<Rightarrow> nat \<Rightarrow> world \<Rightarrow> world" where
  "world_at env tid pts 0 w = w"
| "world_at env tid pts (Suc k) w =
     (let w0 = world_at env tid pts k w
      in w0\<lparr>db := snd (transaction (env k) tid pts (db w0)),
            transactions := Suc (transactions w0),
            sleeps := sleeps w0 @ [RETRY_DELAY * 2 ^ Suc k]\<rparr>)"

definition outcome_at ::
  "(nat \<Rightarrow> attempt_env) \<Rightarrow> string \<Rightarrow> js_value \<Rightarrow> nat \<Rightarrow> world \<Rightarrow> thrown + body" where
  "outcome_at env tid pts k w = fst (transaction (env k) tid pts (db (world_at env tid pts k w)))"

definition retried :: "thrown + body \<Rightarrow> bool" where
  "retried out = (case out of Inl x \<Rightarrow> \<not> is_user_not_found x | Inr res \<Rightarrow> False)"

subsection \<open>Calls that run at the same time\<close>

text \<open>
  The handler gives up control at its two \<^verbatim>\<open>await\<close>s on the gateway, so a call is
  in one of three places: at the head of the loop, between \<^verbatim>\<open>findUnique\<close> and
  \<^verbatim>\<open>update\<close> (holding the row it read), or finished with its response.
\<close>

datatype pc = AtLoop | AfterFind user | Finished "response option"

record call =
  call_telegramId :: string
  call_points :: js_value
  retries :: nat
  pc :: pc

text \<open>
  One step of a call: the gateway answers the pending operation at the given clock
  reading, or the pending operation throws the given value.
\<close>

datatype event = Proceed int | Fault thrown

definition caught :: "thrown \<Rightarrow> call \<Rightarrow> world \<Rightarrow> call \<times> world" where
  "caught x c w =
     (case catch_clause (retries c) x w of
        (Some r, _, w') \<Rightarrow> (c\<lparr>pc := Finished (Some r)\<rparr>, w')
      | (None, retries', w') \<Rightarrow> (c\<lparr>retries := retries', pc := AtLoop\<rparr>, w'))"

definition call_step :: "event \<Rightarrow> call \<Rightarrow> world \<Rightarrow> call \<times> world" where
  "call_step ev c w =
     (case pc c of
        Finished r \<Rightarrow> (c, w)
      | AtLoop \<Rightarrow>
          if retries c < MAX_RETRIES then
            (case ev of
               Fault x \<Rightarrow> caught x c (w\<lparr>transactions := Suc (transactions w)\<rparr>)
             | Proceed date \<Rightarrow>
                 (case user_findUnique (db w) (call_telegramId c) of
                    None \<Rightarrow>
                      caught (Error ''User not found'') c
                        (w\<lparr>transactions := Suc (transactions w)\<rparr>)
                  | Some dbUser \<Rightarrow>
                      (c\<lparr>pc := AfterFind dbUser\<rparr>,
                       w\<lparr>transactions := Suc (transactions w)\<rparr>)))
          else (c\<lparr>pc := Finished None\<rparr>, w)
      | AfterFind dbUser \<Rightarrow>
          (case ev of
             Fault x \<Rightarrow> caught x c w
           | Proceed date \<Rightarrow>
               (case user_update (db w) (call_telegramId c)
                       (lastPointsUpdateTimestamp dbUser) (call_points c) date of
                  Inl x \<Rightarrow> caught x c w
                | Inr (updatedUser, d') \<Rightarrow>
                    (c\<lparr>pc := Finished
                        (Some (NextResponse_json (award_result updatedUser (call_points c)) 200))\<rparr>,
                     w\<lparr>db := d'\<rparr>))))"

text \<open>
  The calls in flight and the world they share. A schedule is a list of pairs: which
  call moves, and on what event. Every interleaving of the calls is a schedule.
\<close>

record system =
  calls :: "call list"
  shared :: world

definition sys_step :: "nat \<times> event \<Rightarrow> system \<Rightarrow> system" where
  "sys_step a s =
     (case a of
        (i, ev) \<Rightarrow>
          if i < length (calls s) then
            (case call_step ev (calls s ! i) (shared s) of
               (c', w') \<Rightarrow> \<lparr>calls = (calls s)[i := c'], shared = w'\<rparr>)
          else s)"

definition run :: "(nat \<times> event) list \<Rightarrow> system \<Rightarrow> system" where
  "run sched s = fold sys_step sched s"

text \<open>A call as it starts, after a request that passed the validation.\<close>

definition new_call :: "string \<Rightarrow> js_value \<Rightarrow> call" where
  "new_call tid pts = \<lparr>call_telegramId = tid, call_points = pts, retries = 0, pc = AtLoop\<rparr>"

text \<open>
  The exact amount of an award, and what a call has added: its amount once it has
  answered with status 200, else nothing.
\<close>

definition amount :: "js_value \<Rightarrow> rat" where
  "amount pts = (case pts of Number (Finite a) \<Rightarrow> rat_of_double a | _ \<Rightarrow> 0)"

definition committed :: "call \<Rightarrow> rat" where
  "committed c =
     (case pc c of
        Finished (Some r) \<Rightarrow> if status r = 200 then amount (call_points c) else 0
      | _ \<Rightarrow> 0)"

definition finished :: "call \<Rightarrow> bool" where
  "finished c = (case pc c of Finished r \<Rightarrow> True | _ \<Rightarrow> False)"

text \<open>
  The steps of a call through one attempt, in the surroundings \<open>e\<close>: the read, what
  other writers commit, and (if the read found the row) the update.
\<close>

definition attempt_steps :: "attempt_env \<Rightarrow> call \<Rightarrow> world \<Rightarrow> call \<times> world" where
  "attempt_steps e c w =
     (case call_step (case find_fault e of Some x \<Rightarrow> Fault x | None \<Rightarrow> Proceed (now e)) c w of
        (c1, w1) \<Rightarrow>
          (case pc c1 of
             AfterFind dbUser \<Rightarrow>
               call_step (case update_fault e of Some x \<Rightarrow> Fault x | None \<Rightarrow> Proceed (now e))
                 c1 (w1\<lparr>db := concurrent e (db w1)\<rparr>)
           | _ \<Rightarrow> (c1, w1)))"


text \<open>
  A bound on the steps a call has left: two for each attempt the counter still allows.
\<close>

definition steps_left :: "call \<Rightarrow> nat" where
  "steps_left c =
     (case pc c of
        Finished r \<Rightarrow> 0
      | AtLoop \<Rightarrow> if retries c < MAX_RETRIES then 2 * (MAX_RETRIES - retries c) else 1
      | AfterFind dbUser \<Rightarrow>
          if retries c < MAX_RETRIES then 2 * (MAX_RETRIES - retries c) - 1 else 1)"

subsection \<open>Scenarios\<close>

text \<open>An attempt that nothing disturbs, made when the clock shows \<open>date\<close>.\<close>

definition quiet :: "int \<Rightarrow> attempt_env" where
  "quiet date = \<lparr>find_fault = None, concurrent = (\<lambda>d. d), update_fault = None, now = date\<rparr>"

text \<open>
  An attempt during which another award of \<open>pts\<close> points to \<open>tid\<close> commits between the
  read and the update.
\<close>

definition overtaken :: "string \<Rightarrow> js_value \<Rightarrow> int \<Rightarrow> int \<Rightarrow> attempt_env" where
  "overtaken tid pts other_date date =
     \<lparr>find_fault = None,
      concurrent = (\<lambda>d. case d tid of
                          None \<Rightarrow> d
                        | Some u \<Rightarrow>
                            (case user_update d tid (lastPointsUpdateTimestamp u) pts other_date of
                               Inl x \<Rightarrow> d
                             | Inr (u', d') \<Rightarrow> d')),
      update_fault = None, now = date\<rparr>"

text \<open>An attempt whose read the gateway rejects with the given value.\<close>

definition unreachable :: "thrown \<Rightarrow> int \<Rightarrow> attempt_env" where
  "unreachable x date =
     \<lparr>find_fault = Some x, concurrent = (\<lambda>d. d), update_fault = None, now = date\<rparr>"

text \<open>A call whose attempts all meet the same surroundings.\<close>

definition always :: "attempt_env \<Rightarrow> nat \<Rightarrow> attempt_env" where
  "always e k = e"

text \<open>
  A call whose first read the gateway rejects with the given value, and whose later
  attempts nothing disturbs.
\<close>

definition flaky :: "thrown \<Rightarrow> int \<Rightarrow> nat \<Rightarrow> attempt_env" where
  "flaky x date k = (if k = 0 then unreachable x date else quiet (date + int k))"

text \<open>The user of the specification's scenarios, and a world that holds only that user.\<close>

definition u1 :: user where
  "u1 = \<lparr>points = number_of_int 100, pointsBalance = number_of_int 100,
          lastPointsUpdateTimestamp = 1000\<rparr>"

definition world1 :: world where
  "world1 = \<lparr>db = [''u1'' \<mapsto> u1], console = [], sleeps = [], transactions = 0\<rparr>"

definition json_request :: "string \<Rightarrow> js_value \<Rightarrow> thrown + FruitSpinnerRequestBody" where
  "json_request tid pts = Inr \<lparr>telegramId = Some tid, body_points = pts\<rparr>"

text \<open>A user whose counters stand at \<open>2 ^ 53\<close>, where the doubles are two apart.\<close>

definition u_big :: user where
  "u_big = \<lparr>points = number_of_int (2 ^ 53), pointsBalance = number_of_int (2 ^ 53),
             lastPointsUpdateTimestamp = 1000\<rparr>"

definition world_big :: world where
  "world_big = \<lparr>db = [''u1'' \<mapsto> u_big], console = [], sleeps = [], transactions = 0\<rparr>"

section \<open>Properties of the numbers\<close>

lemma powi_nonneg: "0 \<le> k \<Longrightarrow> (2::rat) powi k = 2 ^ nat k"
  by (simp add: power_int_def)

lemma powi_neg: "0 \<le> k \<Longrightarrow> (2::rat) powi (- k) = 1 / 2 ^ nat k"
  by (simp add: power_int_minus powi_nonneg field_simps)

lemma flog2_bounds:
  assumes "0 < x"
  shows "2 powi flog2 x \<le> x \<and> x < 2 powi (flog2 x + 1)"
proof (cases "1 \<le> x")
  case True
  let ?n = "\<lfloor>x\<rfloor>"
  from True have n: "0 < ?n" by simp
  from bitlen_bounds[OF n] have b: "2 ^ nat (bitlen ?n - 1) \<le> ?n" "?n < 2 ^ nat (bitlen ?n)"
    by simp_all
  from n have b1: "1 \<le> bitlen ?n" by (simp add: bitlen_alt_def)
  have "(2::rat) powi (bitlen ?n - 1) = 2 ^ nat (bitlen ?n - 1)"
    using b1 by (simp add: power_int_def)
  also have "\<dots> = of_int (2 ^ nat (bitlen ?n - 1))" by simp
  also have "\<dots> \<le> of_int ?n" using b(1) by (simp only: of_int_le_iff)
  also have "\<dots> \<le> x" by simp
  finally have lo: "2 powi (bitlen ?n - 1) \<le> x" .
  have "?n + 1 \<le> 2 ^ nat (bitlen ?n)" using b(2) by simp
  then have "(of_int (?n + 1) :: rat) \<le> of_int (2 ^ nat (bitlen ?n))"
    by (simp only: of_int_le_iff)
  moreover have "x < of_int (?n + 1)" by linarith
  ultimately have "x < of_int (2 ^ nat (bitlen ?n))" by linarith
  also have "\<dots> = 2 powi (bitlen ?n)" using b1 by (simp add: power_int_def)
  finally have "x < 2 powi (bitlen ?n - 1 + 1)" by simp
  with lo True show ?thesis by (simp add: flog2_def)
next
  case False
  with assms have x1: "x < 1" by simp
  let ?n = "\<lceil>1 / x\<rceil>"
  let ?b = "bitlen (?n - 1)"
  from assms x1 have "1 < 1 / x" by (simp add: field_simps)
  then have n2: "2 \<le> ?n" by linarith
  then have m: "0 < ?n - 1" by simp
  from bitlen_bounds[OF m] have b: "2 ^ nat (?b - 1) \<le> ?n - 1" "?n - 1 < 2 ^ nat ?b"
    by simp_all
  from m have b1: "1 \<le> ?b" by (simp add: bitlen_alt_def)
  have "?n \<le> 2 ^ nat ?b" using b(2) by simp
  then have "(of_int ?n :: rat) \<le> 2 ^ nat ?b" by simp
  moreover have "1 / x \<le> of_int ?n" by (rule le_of_int_ceiling)
  ultimately have "1 / x \<le> 2 ^ nat ?b" by (rule order_trans[rotated])
  then have "1 \<le> 2 ^ nat ?b * x" using assms by (simp add: field_simps)
  then have "1 / 2 ^ nat ?b \<le> x" by (simp add: field_simps)
  moreover have "(2::rat) powi (- ?b) = 1 / 2 ^ nat ?b"
    using b1 by (simp add: powi_neg)
  ultimately have lo: "2 powi (- ?b) \<le> x" by simp
  have "(2 ^ nat (?b - 1) :: rat) \<le> of_int (?n - 1)"
    using b(1) by (metis of_int_le_iff of_int_numeral of_int_power)
  moreover have "of_int (?n - 1) < 1 / x" by linarith
  ultimately have "2 ^ nat (?b - 1) < 1 / x" by (rule le_less_trans)
  then have "2 ^ nat (?b - 1) * x < 1" using assms by (simp add: field_simps)
  then have "x < 1 / 2 ^ nat (?b - 1)" by (simp add: field_simps)
  moreover have "(2::rat) powi (- ?b + 1) = 1 / 2 ^ nat (?b - 1)"
    using powi_neg[of "?b - 1"] b1 by simp
  ultimately have "x < 2 powi (- ?b + 1)" by simp
  with lo False show ?thesis by (simp add: flog2_def)
qed

lemma powi_less_cancel: "(2::rat) powi a < 2 powi b \<Longrightarrow> a < b"
proof (rule ccontr)
  assume "(2::rat) powi a < 2 powi b" and "\<not> a < b"
  then have "b \<le> a" by simp
  then have "(2::rat) powi b \<le> 2 powi a" by (intro power_int_increasing) simp_all
  with \<open>(2::rat) powi a < 2 powi b\<close> show False by simp
qed

lemma flog2_unique:
  assumes "0 < x" and "2 powi e \<le> x" and "x < 2 powi (e + 1)"
  shows "flog2 x = e"
proof -
  from flog2_bounds[OF assms(1)] have f: "2 powi flog2 x \<le> x" "x < 2 powi (flog2 x + 1)"
    by simp_all
  have "(2::rat) powi e < 2 powi (flog2 x + 1)" using assms(2) f(2) by simp
  then have "e < flog2 x + 1" by (rule powi_less_cancel)
  moreover have "(2::rat) powi flog2 x < 2 powi (e + 1)" using assms(3) f(1) by simp
  then have "flog2 x < e + 1" by (rule powi_less_cancel)
  ultimately show ?thesis by simp
qed


lemma round_half_even_of_int [simp]: "round_half_even (of_int n) = n"
  by (simp add: round_half_even_def)

lemma round_double_multiple:
  assumes "x / 2 powi quantum x = of_int n"
  shows "round_double x = x"
proof (cases "x = 0")
  case True
  then show ?thesis by (simp add: round_double_def)
next
  case False
  have "round_double x = of_int n * 2 powi quantum x"
    using False assms by (simp add: round_double_def)
  also have "\<dots> = x / 2 powi quantum x * 2 powi quantum x" by (simp add: assms)
  also have "\<dots> = x" by simp
  finally show ?thesis .
qed

lemma flog2_of_int_bounds:
  assumes "n \<noteq> 0" and "\<bar>n\<bar> \<le> 2 ^ 53"
  shows "0 \<le> flog2 \<bar>of_int n\<bar> \<and> flog2 \<bar>of_int n\<bar> \<le> 53 \<and>
         (flog2 \<bar>of_int n\<bar> = 53 \<longrightarrow> \<bar>n\<bar> = 2 ^ 53)"
proof -
  let ?a = "\<bar>of_int n :: rat\<bar>"
  let ?e = "flog2 ?a"
  from assms(1) have a0: "0 < ?a" and a1: "1 \<le> ?a" by simp_all
  have a53: "?a \<le> 2 ^ 53"
  proof -
    have "?a = of_int \<bar>n\<bar>" by simp
    also have "\<dots> \<le> of_int (2 ^ 53)" using assms(2) by (simp only: of_int_le_iff)
    finally show ?thesis by simp
  qed
  from flog2_bounds[OF a0] have f: "2 powi ?e \<le> ?a" "?a < 2 powi (?e + 1)" by simp_all
  have "(2::rat) powi 0 < 2 powi (?e + 1)" using a1 f(2) by simp
  then have e0: "0 \<le> ?e" using powi_less_cancel by fastforce
  have "(2::rat) powi ?e < 2 powi 54"
  proof -
    have "(2::rat) powi ?e \<le> 2 ^ 53" using f(1) a53 by simp
    also have "\<dots> < 2 powi 54" by simp
    finally show ?thesis .
  qed
  then have e53: "?e \<le> 53" using powi_less_cancel by fastforce
  have "\<bar>n\<bar> = 2 ^ 53" if "?e = 53"
  proof -
    from that f(1) a53 have "?a = 2 ^ 53" by simp
    then show ?thesis by (metis of_int_abs of_int_eq_numeral_power_cancel_iff)
  qed
  with e0 e53 show ?thesis by simp
qed

text \<open>A value \<open>n * 2 ^ q\<close> with at most 53 bits in \<open>n\<close> and \<open>q\<close> in range rounds to itself.\<close>

lemma round_double_fixed:
  assumes "\<bar>n\<bar> \<le> 2 ^ 53" and "- 1074 \<le> q"
  shows "round_double (of_int n * 2 powi q) = of_int n * 2 powi q"
proof (cases "n = 0")
  case True
  then show ?thesis by (simp add: round_double_def)
next
  case False
  let ?z = "of_int n * (2::rat) powi q"
  let ?b = "flog2 \<bar>of_int n\<bar>"
  from flog2_of_int_bounds[OF False assms(1)]
  have b0: "0 \<le> ?b" and b53: "?b \<le> 53" and top: "?b = 53 \<longrightarrow> \<bar>n\<bar> = 2 ^ 53"
    by simp_all
  from False have a0: "0 < \<bar>of_int n :: rat\<bar>" by simp
  from flog2_bounds[OF a0]
  have f: "2 powi ?b \<le> \<bar>of_int n :: rat\<bar>" "\<bar>of_int n :: rat\<bar> < 2 powi (?b + 1)"
    by simp_all
  have az: "\<bar>?z\<bar> = \<bar>of_int n\<bar> * 2 powi q" by (simp add: abs_mult)
  have "flog2 \<bar>?z\<bar> = ?b + q"
  proof (rule flog2_unique)
    show "0 < \<bar>?z\<bar>" using False by simp
    show "2 powi (?b + q) \<le> \<bar>?z\<bar>"
      using f(1) by (simp add: az power_int_add)
    show "\<bar>?z\<bar> < 2 powi (?b + q + 1)"
      using f(2) by (simp add: az power_int_add)
  qed
  then have qz: "quantum ?z = max (?b + q - 52) (- 1074)"
    by (simp add: quantum_def)
  show ?thesis
  proof (cases "?b \<le> 52")
    case True
    let ?d = "q - quantum ?z"
    from True assms(2) have d: "0 \<le> ?d" by (simp add: qz)
    have "?z / 2 powi quantum ?z = of_int n * 2 powi ?d"
      by (simp add: power_int_diff)
    also have "\<dots> = of_int (n * 2 ^ nat ?d)"
      using d by (simp add: powi_nonneg)
    finally show ?thesis by (rule round_double_multiple)
  next
    case False
    with b53 top have b: "?b = 53" and n: "\<bar>n\<bar> = 2 ^ 53" by simp_all
    from b assms(2) have q1: "quantum ?z = q + 1" by (simp add: qz)
    from n have "n = 2 ^ 53 \<or> n = - (2 ^ 53)" by linarith
    then have h: "(of_int n :: rat) / 2 = of_int (n div 2)" by auto
    have "?z / 2 powi quantum ?z = ?z / 2 powi (q + 1)" by (simp only: q1)
    also have "\<dots> = of_int n / 2" by (simp add: power_int_add)
    also note h
    finally show ?thesis by (rule round_double_multiple)
  qed
qed

lemma round_double_safe_integer:
  assumes "\<bar>n\<bar> \<le> 2 ^ 53"
  shows "round_double (of_int n) = of_int n"
  using round_double_fixed[OF assms, of 0] by simp

lemma round_half_even_bounds:
  "\<lfloor>x\<rfloor> \<le> round_half_even x \<and> round_half_even x \<le> \<lfloor>x\<rfloor> + 1"
  by (simp add: round_half_even_def)

text \<open>Rounding yields such a value, so rounding twice is rounding once.\<close>

lemma round_double_shape:
  assumes "x \<noteq> 0"
  shows "\<bar>round_half_even (x / 2 powi quantum x)\<bar> \<le> 2 ^ 53"
proof -
  let ?q = "quantum x"
  let ?y = "x / 2 powi ?q"
  from assms have a0: "0 < \<bar>x\<bar>" by simp
  from flog2_bounds[OF a0] have "\<bar>x\<bar> < 2 powi (flog2 \<bar>x\<bar> + 1)" by simp
  also have "\<dots> \<le> 2 powi (?q + 53)"
    by (intro power_int_increasing) (simp_all add: quantum_def)
  finally have "\<bar>x\<bar> < 2 powi ?q * 2 ^ 53" by (simp add: power_int_add)
  then have "\<bar>x\<bar> / 2 powi ?q < 2 ^ 53" by (simp add: field_simps)
  then have y: "\<bar>?y\<bar> < 2 ^ 53" by (simp add: abs_divide)
  from y have up: "?y < 2 ^ 53" and lo: "- ?y < 2 ^ 53"
    by (simp_all only: abs_less_iff)
  from up have "\<lfloor>?y\<rfloor> < 2 ^ 53" by (simp add: floor_less_iff)
  moreover from lo have "of_int (- (2 ^ 53)) \<le> ?y" by simp
  then have "- (2 ^ 53) \<le> \<lfloor>?y\<rfloor>" by (simp only: le_floor_iff)
  ultimately show ?thesis using round_half_even_bounds[of ?y] by linarith
qed

lemma round_double_idem: "round_double (round_double x) = round_double x"
proof (cases "x = 0")
  case True
  then show ?thesis by (simp add: round_double_def)
next
  case False
  have q: "- 1074 \<le> quantum x" by (simp add: quantum_def)
  from False have "round_double x =
      of_int (round_half_even (x / 2 powi quantum x)) * 2 powi quantum x"
    by (simp add: round_double_def)
  with round_double_fixed[OF round_double_shape[OF False] q] show ?thesis by simp
qed

lemma round_double_above_safe: "round_double (2 ^ 53 + 1) = 2 ^ 53"
proof -
  have "flog2 \<bar>2 ^ 53 + 1\<bar> = 53"
    by (rule flog2_unique) simp_all
  then have q: "quantum (2 ^ 53 + 1) = 1" by (simp add: quantum_def)
  have "\<lfloor>(2 ^ 53 + 1) / 2 :: rat\<rfloor> = 2 ^ 52"
    by (rule floor_unique) simp_all
  then have "round_half_even ((2 ^ 53 + 1) / 2) = 2 ^ 52"
    by (simp add: round_half_even_def)
  then show ?thesis unfolding round_double_def q by simp
qed

lemma round_double_zero [simp]: "round_double 0 = 0"
  by (simp add: round_double_def)

lemma safe_integer_representable:
  assumes "\<bar>n\<bar> \<le> 2 ^ 53"
  shows "exactly_representable (of_int n)"
proof -
  have "\<bar>of_int n :: rat\<bar> = of_int \<bar>n\<bar>" by simp
  also have "\<dots> \<le> of_int (2 ^ 53)" using assms by (simp only: of_int_le_iff)
  also have "\<dots> < 2 ^ 1024" by simp
  finally show ?thesis
    using round_double_safe_integer[OF assms] by (simp add: exactly_representable_def)
qed

lemma rat_of_double_representable: "exactly_representable (rat_of_double a)"
  using rat_of_double[of a] by simp

lemma to_number_exact:
  assumes "exactly_representable x"
  shows "to_number x = Finite (double_of_rat x)" and "rat_of (to_number x) = Some x"
proof -
  from assms have r: "round_double x = x" and b: "\<bar>x\<bar> < 2 ^ 1024"
    by (simp_all add: exactly_representable_def)
  from b have "\<not> 2 ^ 1024 \<le> x" and "\<not> x \<le> - (2 ^ 1024)" by linarith+
  then show "to_number x = Finite (double_of_rat x)"
    by (simp add: to_number_def r)
  with assms show "rat_of (to_number x) = Some x"
    by (simp add: double_of_rat_inverse)
qed

text \<open>What a sum of doubles is: the rounded exact sum, when that is in range.\<close>

lemma rat_of_to_number:
  assumes "\<bar>round_double x\<bar> < 2 ^ 1024"
  shows "rat_of (to_number x) = Some (round_double x)"
proof -
  from assms have "exactly_representable (round_double x)"
    by (simp add: exactly_representable_def round_double_idem)
  moreover from assms have "\<not> 2 ^ 1024 \<le> round_double x"
    and "\<not> round_double x \<le> - (2 ^ 1024)" by linarith+
  ultimately show ?thesis
    by (simp add: to_number_def double_of_rat_inverse)
qed

lemma to_number_rat_of_double [simp]: "to_number (rat_of_double a) = Finite a"
  using to_number_exact(1)[OF rat_of_double_representable, of a]
  by (simp add: rat_of_double_inverse)

lemma rat_of_Some: "rat_of x = Some a \<Longrightarrow> x = Finite (double_of_rat a) \<and> exactly_representable a"
  by (cases x) (auto simp: rat_of_double_inverse rat_of_double_representable)

lemma js_add_exact:
  assumes "rat_of x = Some a" and "rat_of y = Some b" and "exactly_representable (a + b)"
  shows "rat_of (js_add x y) = Some (a + b)"
proof -
  from assms(1) obtain da where x: "x = Finite da" "rat_of_double da = a" by (cases x) auto
  from assms(2) obtain db where y: "y = Finite db" "rat_of_double db = b" by (cases y) auto
  from x y to_number_exact(2)[OF assms(3)] show ?thesis by simp
qed

lemma number_of_int_zero: "number_of_int 0 = Finite (double_of_rat 0)"
  using to_number_exact(1)[OF safe_integer_representable[of 0]] by (simp add: number_of_int_def)

lemma js_add_zero [simp]: "js_add x (number_of_int 0) = x"
proof (cases x)
  case (Finite a)
  have "rat_of_double (double_of_rat 0) = 0"
    using safe_integer_representable[of 0] by (simp add: double_of_rat_inverse)
  with Finite show ?thesis by (simp add: number_of_int_zero)
qed (simp_all add: number_of_int_zero)

lemma rat_of_number_of_int:
  assumes "\<bar>n\<bar> \<le> 2 ^ 53"
  shows "rat_of (number_of_int n) = Some (of_int n)"
  using to_number_exact(2)[OF safe_integer_representable[OF assms]]
  by (simp add: number_of_int_def)

text \<open>The sum of two whole numbers up to \<open>2 ^ 53\<close> in size is their rounded exact sum.\<close>

lemma js_add_number_of_int:
  assumes "\<bar>a\<bar> \<le> 2 ^ 53" and "\<bar>b\<bar> \<le> 2 ^ 53"
  shows "js_add (number_of_int a) (number_of_int b) = number_of_int (a + b)"
proof -
  from rat_of_Some[OF rat_of_number_of_int[OF assms(1)]]
  have a: "number_of_int a = Finite (double_of_rat (of_int a))" by simp
  from rat_of_Some[OF rat_of_number_of_int[OF assms(2)]]
  have b: "number_of_int b = Finite (double_of_rat (of_int b))" by simp
  have ra: "rat_of_double (double_of_rat (of_int a)) = of_int a"
    using safe_integer_representable[OF assms(1)] by (simp add: double_of_rat_inverse)
  have rb: "rat_of_double (double_of_rat (of_int b)) = of_int b"
    using safe_integer_representable[OF assms(2)] by (simp add: double_of_rat_inverse)
  have "js_add (number_of_int a) (number_of_int b) = to_number (of_int a + of_int b)"
    by (simp only: a b js_add.simps ra rb)
  then show ?thesis by (simp add: number_of_int_def)
qed

lemma js_less_zero_number_of_int:
  assumes "\<bar>n\<bar> \<le> 2 ^ 53"
  shows "js_less_zero (number_of_int n) = (n < 0)"
proof -
  from rat_of_Some[OF rat_of_number_of_int[OF assms]]
  have "number_of_int n = Finite (double_of_rat (of_int n))" by simp
  then show ?thesis
    using safe_integer_representable[OF assms] by (simp add: double_of_rat_inverse)
qed

text \<open>Above \<open>2 ^ 53\<close> the doubles are two apart: adding 1 to \<open>2 ^ 53\<close> gives \<open>2 ^ 53\<close>.\<close>

lemma number_of_int_above_safe: "number_of_int (2 ^ 53 + 1) = number_of_int (2 ^ 53)"
  using round_double_above_safe round_double_safe_integer[of "2 ^ 53"]
  by (simp add: number_of_int_def to_number_def)

lemma js_add_above_safe:
  "js_add (number_of_int (2 ^ 53)) (number_of_int 1) = number_of_int (2 ^ 53)"
proof -
  have "js_add (number_of_int (2 ^ 53)) (number_of_int 1) = number_of_int (2 ^ 53 + 1)"
    by (rule js_add_number_of_int) simp_all
  then show ?thesis by (simp only: number_of_int_above_safe)
qed

lemma num_not_undefined [simp]: "num n \<noteq> Undefined"
  by (simp add: num_def)

lemma less_than_zero_num: "\<bar>n\<bar> \<le> 2 ^ 53 \<Longrightarrow> less_than_zero (num n) = (n < 0)"
  by (simp add: num_def js_less_zero_number_of_int)

section \<open>Properties of the retry loop\<close>

declare award_loop.simps [simp del]

lemma str_includes_sublist: "str_includes s t = sublist t s"
  by (induction s) (auto simp: sublist_Cons_right)

lemma record_not_found_retryable: "\<not> is_user_not_found record_not_found"
  by (simp add: is_user_not_found_def record_not_found_def)

lemma invalid_increment_retryable: "\<not> is_user_not_found invalid_increment"
  by (simp add: is_user_not_found_def invalid_increment_def)

lemma award_loop_success:
  assumes "transaction (env k) tid pts (db w) = (Inr res, d')" and "k < MAX_RETRIES"
  shows "award_loop env tid pts k w =
           (Some (NextResponse_json res 200), w\<lparr>db := d', transactions := Suc (transactions w)\<rparr>)"
  using assms by (subst award_loop.simps) simp

lemma award_loop_not_found:
  assumes "transaction (env k) tid pts (db w) = (Inl x, d')" and "is_user_not_found x"
    and "k < MAX_RETRIES"
  shows "award_loop env tid pts k w =
           (Some (NextResponse_json (ErrorBody ''User not found'') 404),
            w\<lparr>db := d', transactions := Suc (transactions w)\<rparr>)"
  using assms by (subst award_loop.simps) (simp add: catch_clause_def)

lemma award_loop_exhausted:
  assumes "transaction (env k) tid pts (db w) = (Inl x, d')" and "\<not> is_user_not_found x"
    and "k = MAX_RETRIES - 1"
  shows "award_loop env tid pts k w =
           (Some (NextResponse_json (ErrorBody ''Failed to add points after multiple attempts'') 500),
            w\<lparr>db := d', transactions := Suc (transactions w),
              console := console w @ [(''Max retries reached for fruit spinner points:'', x)]\<rparr>)"
  using assms by (subst award_loop.simps) (simp add: catch_clause_def MAX_RETRIES_def)

lemma award_loop_retry:
  assumes "transaction (env k) tid pts (db w) = (Inl x, d')" and "\<not> is_user_not_found x"
    and "k < MAX_RETRIES - 1"
  shows "award_loop env tid pts k w =
           award_loop env tid pts (Suc k)
             (w\<lparr>db := d', transactions := Suc (transactions w),
                sleeps := sleeps w @ [RETRY_DELAY * 2 ^ Suc k]\<rparr>)"
proof -
  from assms(3) have "k < MAX_RETRIES" by simp
  with assms show ?thesis by (subst award_loop.simps) (simp add: catch_clause_def)
qed

lemma transaction_absent:
  assumes "find_fault e = None" and "d tid = None"
  shows "transaction e tid pts d = (Inl (Error ''User not found''), d)"
  using assms by (simp add: transaction_def user_findUnique_def)

lemma user_not_found_literal: "is_user_not_found (Error ''User not found'')"
  by (simp add: is_user_not_found_def)

lemma transaction_Inr:
  assumes "transaction e tid pts d = (Inr res, d')"
  shows "\<exists>u0 u x. pts = Number x \<and>
           find_fault e = None \<and> update_fault e = None \<and> d tid = Some u0 \<and>
           concurrent e d tid = Some u \<and>
           lastPointsUpdateTimestamp u = lastPointsUpdateTimestamp u0 \<and>
           res = award_result (u\<lparr>points := js_add (points u) x,
                                 pointsBalance := js_add (pointsBalance u) x,
                                 lastPointsUpdateTimestamp := now e\<rparr>) pts \<and>
           d' = (concurrent e d)(tid \<mapsto> u\<lparr>points := js_add (points u) x,
                   pointsBalance := js_add (pointsBalance u) x,
                   lastPointsUpdateTimestamp := now e\<rparr>)"
  using assms
  by (auto simp: transaction_def user_findUnique_def user_update_def Let_def
      split: option.splits if_splits sum.splits js_value.splits)

lemma transaction_Inl_db:
  assumes "transaction e tid pts d = (Inl x, d')"
  shows "d' = d \<or> d' = concurrent e d"
  using assms
  by (auto simp: transaction_def user_findUnique_def user_update_def Let_def
      split: option.splits if_splits sum.splits js_value.splits)


lemma award_loop_retry_at:
  assumes "retried (outcome_at env tid pts k w)" and "k < MAX_RETRIES - 1"
  shows "award_loop env tid pts k (world_at env tid pts k w) =
         award_loop env tid pts (Suc k) (world_at env tid pts (Suc k) w)"
proof -
  obtain out d' where t: "transaction (env k) tid pts (db (world_at env tid pts k w)) = (out, d')"
    by (cases "transaction (env k) tid pts (db (world_at env tid pts k w))")
  with assms(1) obtain x where "out = Inl x" and "\<not> is_user_not_found x"
    by (auto simp: outcome_at_def retried_def split: sum.splits)
  with t assms(2) show ?thesis
    by (simp add: award_loop_retry Let_def)
qed

lemma award_loop_world_at:
  assumes "\<forall>j<k. retried (outcome_at env tid pts j w)" and "k < MAX_RETRIES"
  shows "award_loop env tid pts 0 w = award_loop env tid pts k (world_at env tid pts k w)"
  using assms
proof (induction k)
  case 0
  then show ?case by simp
next
  case (Suc k)
  then have "award_loop env tid pts 0 w = award_loop env tid pts k (world_at env tid pts k w)"
    by simp
  also have "\<dots> = award_loop env tid pts (Suc k) (world_at env tid pts (Suc k) w)"
    using Suc.prems by (intro award_loop_retry_at) auto
  finally show ?case .
qed

lemma world_at_transactions: "transactions (world_at env tid pts k w) = transactions w + k"
  by (induction k) (simp_all add: Let_def)

lemma world_at_console: "console (world_at env tid pts k w) = console w"
  by (induction k) (simp_all add: Let_def)

lemma world_at_sleeps:
  "sleeps (world_at env tid pts k w) = sleeps w @ map (\<lambda>j. RETRY_DELAY * 2 ^ j) [1..<Suc k]"
  by (induction k) (simp_all add: Let_def)

text \<open>How a call ends: at its first attempt that is not followed by a retry.\<close>

lemma award_loop_end:
  assumes "\<forall>j<k. retried (outcome_at env tid pts j w)" and "k < MAX_RETRIES"
    and "\<not> retried (outcome_at env tid pts k w) \<or> k = MAX_RETRIES - 1"
  shows "award_loop env tid pts 0 w =
         (let w0 = world_at env tid pts k w;
              w1 = w0\<lparr>db := snd (transaction (env k) tid pts (db w0)),
                      transactions := Suc (transactions w0)\<rparr>
          in case outcome_at env tid pts k w of
               Inr res \<Rightarrow> (Some (NextResponse_json res 200), w1)
             | Inl x \<Rightarrow>
                 if is_user_not_found x
                 then (Some (NextResponse_json (ErrorBody ''User not found'') 404), w1)
                 else (Some (NextResponse_json
                         (ErrorBody ''Failed to add points after multiple attempts'') 500),
                       w1\<lparr>console := console w1 @
                            [(''Max retries reached for fruit spinner points:'', x)]\<rparr>))"
proof -
  let ?w0 = "world_at env tid pts k w"
  obtain out d' where t: "transaction (env k) tid pts (db ?w0) = (out, d')"
    by (cases "transaction (env k) tid pts (db ?w0)")
  have start: "award_loop env tid pts 0 w = award_loop env tid pts k ?w0"
    using assms(1,2) by (rule award_loop_world_at)
  show ?thesis
  proof (cases out)
    case (Inr res)
    with t assms(2) show ?thesis
      by (simp add: start award_loop_success outcome_at_def Let_def)
  next
    case (Inl x)
    show ?thesis
    proof (cases "is_user_not_found x")
      case True
      with t Inl assms(2) show ?thesis
        by (simp add: start award_loop_not_found outcome_at_def Let_def)
    next
      case False
      with t Inl assms(3) have "k = MAX_RETRIES - 1"
        by (auto simp: outcome_at_def retried_def)
      with t Inl False show ?thesis
        by (simp add: start award_loop_exhausted outcome_at_def Let_def)
    qed
  qed
qed

text \<open>Every call has such an attempt among its first three.\<close>

lemma last_attempt_exists:
  "\<exists>k<MAX_RETRIES. (\<forall>j<k. retried (outcome_at env tid pts j w)) \<and>
      (\<not> retried (outcome_at env tid pts k w) \<or> k = MAX_RETRIES - 1)"
proof (cases "retried (outcome_at env tid pts 0 w)")
  case False
  then show ?thesis by (intro exI[of _ 0]) (simp add: MAX_RETRIES_def)
next
  case r0: True
  show ?thesis
  proof (cases "retried (outcome_at env tid pts 1 w)")
    case False
    with r0 show ?thesis by (intro exI[of _ 1]) (simp add: MAX_RETRIES_def)
  next
    case True
    with r0 have "\<forall>j<2. retried (outcome_at env tid pts j w)"
      by (auto simp: less_Suc_eq numeral_2_eq_2)
    then show ?thesis by (intro exI[of _ 2]) (simp add: MAX_RETRIES_def)
  qed
qed


lemma award_loop_summary:
  "\<exists>k<MAX_RETRIES. \<exists>r w'. award_loop env tid pts 0 w = (Some r, w') \<and>
      transactions w' = transactions w + Suc k \<and>
      sleeps w' = sleeps w @ map (\<lambda>j. RETRY_DELAY * 2 ^ j) [1..<Suc k] \<and>
      status r \<in> {200, 404, 500}"
proof -
  obtain k where k: "k < MAX_RETRIES" "\<forall>j<k. retried (outcome_at env tid pts j w)"
    "\<not> retried (outcome_at env tid pts k w) \<or> k = MAX_RETRIES - 1"
    using last_attempt_exists by blast
  show ?thesis
    using k(1)
    by (intro exI[of _ k])
      (auto simp: award_loop_end[OF k(2,1,3)] Let_def world_at_transactions world_at_sleeps
        NextResponse_json_def split: sum.splits)
qed

section \<open>The claims\<close>

text \<open>
  Claim C4. A request whose \<^verbatim>\<open>telegramId\<close> is missing or empty, or whose points are
  undefined or negative, is answered with status 400 and the body
  \<^verbatim>\<open>{ error: 'Invalid request data' }\<close>, and the world is left as it was: no transaction is
  opened, and the database, the console and the timers are untouched. A request for zero
  points with a non-empty \<^verbatim>\<open>telegramId\<close> is not rejected: it enters the retry loop, opens
  a transaction and is not answered with that response.
\<close>

theorem invalid_request_rejected:
  "(telegramId b = None \<or> telegramId b = Some [] \<or> body_points b = Undefined \<or>
      (\<exists>x. body_points b = Number x \<and> js_less_zero x)
     \<longrightarrow> POST env (Inr b) w =
           (Some (NextResponse_json (ErrorBody ''Invalid request data'') 400), w))
   \<and> (tid \<noteq> [] \<longrightarrow>
        POST env (json_request tid (num 0)) w = award_loop env tid (num 0) 0 w
        \<and> fst (POST env (json_request tid (num 0)) w)
            \<noteq> Some (NextResponse_json (ErrorBody ''Invalid request data'') 400)
        \<and> transactions w < transactions (snd (POST env (json_request tid (num 0)) w)))"
proof (intro conjI impI)
  assume "telegramId b = None \<or> telegramId b = Some [] \<or> body_points b = Undefined \<or>
      (\<exists>x. body_points b = Number x \<and> js_less_zero x)"
  then show "POST env (Inr b) w =
           (Some (NextResponse_json (ErrorBody ''Invalid request data'') 400), w)"
    by (auto simp: POST_def split: option.splits)
next
  assume tid: "tid \<noteq> []"
  then show eq: "POST env (json_request tid (num 0)) w = award_loop env tid (num 0) 0 w"
    by (simp add: POST_def json_request_def num_def js_less_zero_number_of_int)
  obtain k r w' where k: "award_loop env tid (num 0) 0 w = (Some r, w')"
    "transactions w' = transactions w + Suc k" "status r \<in> {200, 404, 500}"
    using award_loop_summary[of env tid "num 0" w] by blast
  from k(1,3) show "fst (POST env (json_request tid (num 0)) w)
            \<noteq> Some (NextResponse_json (ErrorBody ''Invalid request data'') 400)"
    by (auto simp: eq NextResponse_json_def)
  from k(1,2) show "transactions w < transactions (snd (POST env (json_request tid (num 0)) w))"
    by (simp add: eq)
qed

theorem invalid_request_rejected_witness:
  "POST (\<lambda>k. quiet 2000) (json_request ''u1'' (num (- 5))) world1 =
     (Some (NextResponse_json (ErrorBody ''Invalid request data'') 400), world1)
   \<and> POST (\<lambda>k. quiet 2000) (json_request ''u1'' (num 0)) world1 =
       award_loop (\<lambda>k. quiet 2000) ''u1'' (num 0) 0 world1
   \<and> fst (POST (\<lambda>k. quiet 2000) (json_request ''u1'' (num 0)) world1)
       \<noteq> Some (NextResponse_json (ErrorBody ''Invalid request data'') 400)
   \<and> transactions world1
       < transactions (snd (POST (\<lambda>k. quiet 2000) (json_request ''u1'' (num 0)) world1))"
proof -
  have "js_less_zero (number_of_int (- 5))"
    by (simp add: js_less_zero_number_of_int)
  then have "\<exists>x. body_points \<lparr>telegramId = Some ''u1'', body_points = num (- 5)\<rparr> = Number x
               \<and> js_less_zero x"
    by (simp add: num_def)
  with invalid_request_rejected
    [of "\<lparr>telegramId = Some ''u1'', body_points = num (- 5)\<rparr>" "\<lambda>k. quiet 2000" world1 "''u1''"]
  show ?thesis
    unfolding json_request_def by fastforce
qed

text \<open>
  Claim C3. When the read of an attempt finds no row for the \<^verbatim>\<open>telegramId\<close>, the call
  ends in that attempt with status 404 and the body \<^verbatim>\<open>{ error: 'User not found' }\<close>. The
  world after the call is the world before it with one more transaction opened: the
  database is unchanged, no wait is scheduled and no further attempt is made. For a
  request that passes the validation this is what \<^verbatim>\<open>POST\<close> returns when the row is absent
  at the first read.
\<close>

theorem user_not_found_terminal:
  assumes "db w tid = None" and "find_fault (env k) = None" and "k < MAX_RETRIES"
  shows "award_loop env tid pts k w =
           (Some (NextResponse_json (ErrorBody ''User not found'') 404),
            w\<lparr>transactions := Suc (transactions w)\<rparr>)
         \<and> (k = 0 \<and> tid \<noteq> [] \<and> pts \<noteq> Undefined \<and> \<not> less_than_zero pts \<longrightarrow>
              POST env (json_request tid pts) w =
                (Some (NextResponse_json (ErrorBody ''User not found'') 404),
                 w\<lparr>transactions := Suc (transactions w)\<rparr>))"
proof -
  have "transaction (env k) tid pts (db w) = (Inl (Error ''User not found''), db w)"
    using assms(1,2) by (simp add: transaction_absent)
  then have "award_loop env tid pts k w =
           (Some (NextResponse_json (ErrorBody ''User not found'') 404),
            w\<lparr>transactions := Suc (transactions w)\<rparr>)"
    using assms(3) by (simp add: award_loop_not_found[where x = "Error ''User not found''"] user_not_found_literal)
  then show ?thesis
    by (auto simp: POST_def json_request_def)
qed

theorem user_not_found_terminal_witness:
  "award_loop (\<lambda>k. quiet 2000) ''ghost'' (num 10) 0 world1 =
     (Some (NextResponse_json (ErrorBody ''User not found'') 404),
      world1\<lparr>transactions := Suc (transactions world1)\<rparr>)
   \<and> POST (\<lambda>k. quiet 2000) (json_request ''ghost'' (num 10)) world1 =
     (Some (NextResponse_json (ErrorBody ''User not found'') 404),
      world1\<lparr>transactions := Suc (transactions world1)\<rparr>)"
  using user_not_found_terminal [of world1 "''ghost''" "\<lambda>k. quiet 2000" 0 "num 10"]
  by (simp add: world1_def quiet_def MAX_RETRIES_def num_def js_less_zero_number_of_int)

text \<open>
  Claim C5. Every call returns a response and opens at most \<open>MAX_RETRIES = 3\<close>
  transactions. When the conditional update finds no matching row in each of the three
  attempts, the call answers with status 500 and the body
  \<^verbatim>\<open>{ error: 'Failed to add points after multiple attempts' }\<close>, after exactly three
  transactions and the waits 200 and 400, and it logs the last conflict.
\<close>

theorem retry_loop_bounded:
  "MAX_RETRIES = 3
   \<and> (\<exists>r w'. POST env req w = (Some r, w') \<and> transactions w' \<le> transactions w + MAX_RETRIES)
   \<and> (tid \<noteq> [] \<and> pts \<noteq> Undefined \<and> \<not> less_than_zero pts \<and>
        (\<forall>k<MAX_RETRIES. outcome_at env tid pts k w = Inl record_not_found)
        \<longrightarrow> (\<exists>w'. POST env (json_request tid pts) w =
                    (Some (NextResponse_json
                       (ErrorBody ''Failed to add points after multiple attempts'') 500), w')
                  \<and> transactions w' = transactions w + MAX_RETRIES
                  \<and> sleeps w' = sleeps w @ [200, 400]
                  \<and> console w' = console w @
                       [(''Max retries reached for fruit spinner points:'', record_not_found)]))"
proof (intro conjI impI)
  show "MAX_RETRIES = 3" by (simp add: MAX_RETRIES_def)
next
  show "\<exists>r w'. POST env req w = (Some r, w') \<and> transactions w' \<le> transactions w + MAX_RETRIES"
  proof (cases req)
    case (Inl x)
    then show ?thesis by (simp add: POST_def)
  next
    case (Inr b)
    show ?thesis
    proof (cases "\<exists>t. telegramId b = Some t \<and> t \<noteq> [] \<and> body_points b \<noteq> Undefined \<and>
                    \<not> less_than_zero (body_points b)")
      case True
      then obtain t where b: "telegramId b = Some t" "t \<noteq> []" "body_points b \<noteq> Undefined"
        "\<not> less_than_zero (body_points b)"
        by blast
      then have eq: "POST env req w = award_loop env t (body_points b) 0 w"
        using Inr by (simp add: POST_def)
      obtain k r w' where "k < MAX_RETRIES" "award_loop env t (body_points b) 0 w = (Some r, w')"
        "transactions w' = transactions w + Suc k"
        using award_loop_summary[of env t "body_points b" w] by blast
      then show ?thesis by (simp add: eq)
    next
      case False
      then show ?thesis
        using Inr by (auto simp: POST_def split: option.splits)
    qed
  qed
next
  assume a: "tid \<noteq> [] \<and> pts \<noteq> Undefined \<and> \<not> less_than_zero pts \<and>
    (\<forall>k<MAX_RETRIES. outcome_at env tid pts k w = Inl record_not_found)"
  then have eq: "POST env (json_request tid pts) w = award_loop env tid pts 0 w"
    by (simp add: POST_def json_request_def)
  have r: "\<forall>j<2. retried (outcome_at env tid pts j w)"
    using a by (simp add: retried_def record_not_found_retryable MAX_RETRIES_def)
  have o2: "outcome_at env tid pts 2 w = Inl record_not_found"
    using a by (simp add: MAX_RETRIES_def)
  have "award_loop env tid pts 0 w =
      (Some (NextResponse_json (ErrorBody ''Failed to add points after multiple attempts'') 500),
       (world_at env tid pts 2 w)
         \<lparr>db := snd (transaction (env 2) tid pts (db (world_at env tid pts 2 w))),
           transactions := Suc (transactions (world_at env tid pts 2 w)),
           console := console (world_at env tid pts 2 w) @
              [(''Max retries reached for fruit spinner points:'', record_not_found)]\<rparr>)"
    using award_loop_end[of 2 env tid pts w] r
    by (simp add: o2 MAX_RETRIES_def Let_def record_not_found_retryable)
  then show "\<exists>w'. POST env (json_request tid pts) w =
                    (Some (NextResponse_json
                       (ErrorBody ''Failed to add points after multiple attempts'') 500), w')
                  \<and> transactions w' = transactions w + MAX_RETRIES
                  \<and> sleeps w' = sleeps w @ [200, 400]
                  \<and> console w' = console w @
                       [(''Max retries reached for fruit spinner points:'', record_not_found)]"
    by (simp add: eq world_at_transactions world_at_console world_at_sleeps MAX_RETRIES_def
        RETRY_DELAY_def numeral_2_eq_2 upt_rec)
qed


lemma overtaken_outcomes:
  "\<forall>k<MAX_RETRIES.
     outcome_at (\<lambda>k. overtaken ''u1'' (num 7) (1500 + int k) (2000 + int k)) ''u1'' (num 20) k
       world1 = Inl record_not_found"
  by (simp add: MAX_RETRIES_def less_Suc_eq eval_nat_numeral outcome_at_def overtaken_def
      world1_def u1_def transaction_def user_findUnique_def user_update_def Let_def num_def)

theorem retry_loop_bounded_witness:
  "fst (POST (\<lambda>k. overtaken ''u1'' (num 7) (1500 + int k) (2000 + int k))
          (json_request ''u1'' (num 20)) world1) =
     Some (NextResponse_json (ErrorBody ''Failed to add points after multiple attempts'') 500)
   \<and> transactions (snd (POST (\<lambda>k. overtaken ''u1'' (num 7) (1500 + int k) (2000 + int k))
          (json_request ''u1'' (num 20)) world1)) = 3
   \<and> sleeps (snd (POST (\<lambda>k. overtaken ''u1'' (num 7) (1500 + int k) (2000 + int k))
          (json_request ''u1'' (num 20)) world1)) = [200, 400]"
  using retry_loop_bounded
    [of "\<lambda>k. overtaken ''u1'' (num 7) (1500 + int k) (2000 + int k)"
        "json_request ''u1'' (num 20)" world1 "''u1''" "num 20"]
    overtaken_outcomes
  by (auto simp: world1_def num_def js_less_zero_number_of_int)


lemma POST_summary:
  "\<exists>n\<le>MAX_RETRIES. transactions (snd (POST env req w)) = transactions w + n \<and>
      sleeps (snd (POST env req w)) = sleeps w @ map (\<lambda>k. RETRY_DELAY * 2 ^ k) [1..<n]"
proof (cases req)
  case (Inl x)
  then show ?thesis by (intro exI[of _ 0]) (simp add: POST_def)
next
  case (Inr b)
  show ?thesis
  proof (cases "\<exists>t. telegramId b = Some t \<and> t \<noteq> [] \<and> body_points b \<noteq> Undefined \<and>
                  \<not> less_than_zero (body_points b)")
    case True
    then obtain t where b: "telegramId b = Some t" "t \<noteq> []" "body_points b \<noteq> Undefined"
      "\<not> less_than_zero (body_points b)"
      by blast
    then have eq: "POST env req w = award_loop env t (body_points b) 0 w"
      using Inr by (simp add: POST_def)
    obtain k r w' where "k < MAX_RETRIES" "award_loop env t (body_points b) 0 w = (Some r, w')"
      "transactions w' = transactions w + Suc k"
      "sleeps w' = sleeps w @ map (\<lambda>j. RETRY_DELAY * 2 ^ j) [1..<Suc k]"
      using award_loop_summary[of env t "body_points b" w] by blast
    then show ?thesis by (intro exI[of _ "Suc k"]) (simp add: eq)
  next
    case False
    then have "POST env req w =
        (Some (NextResponse_json (ErrorBody ''Invalid request data'') 400), w)"
      using Inr by (auto simp: POST_def split: option.splits)
    then show ?thesis by (intro exI[of _ 0]) simp
  qed
qed

text \<open>
  Claim C7. When the \<^verbatim>\<open>catch\<close> clause lets a retry follow, it increments the counter
  first and then waits \<open>RETRY_DELAY * 2 ^ retries\<close> with the new counter. So a call that
  opens \<open>n\<close> transactions has waited \<open>100 * 2 ^ k\<close> before attempt \<open>k + 1\<close>, for \<open>k\<close> from 1
  to \<open>n - 1\<close>: 200 before the second attempt and 400 before the third, and never 100.
\<close>

theorem backoff_delays:
  "(catch_clause k x w0 = (None, k', w0') \<longrightarrow>
      k' = Suc k \<and> sleeps w0' = sleeps w0 @ [RETRY_DELAY * 2 ^ k'])
   \<and> (\<exists>n\<le>MAX_RETRIES. transactions (snd (POST env req w)) = transactions w + n \<and>
         sleeps (snd (POST env req w)) = sleeps w @ map (\<lambda>k. RETRY_DELAY * 2 ^ k) [1..<n])
   \<and> map (\<lambda>k. RETRY_DELAY * 2 ^ k) [1..<MAX_RETRIES] = [200, 400]
   \<and> (\<exists>ws. sleeps (snd (POST env req w)) = sleeps w @ ws \<and> prefix ws [200, 400])"
proof (intro conjI impI)
  assume "catch_clause k x w0 = (None, k', w0')"
  then show "k' = Suc k" and "sleeps w0' = sleeps w0 @ [RETRY_DELAY * 2 ^ k']"
    by (auto simp: catch_clause_def split: if_splits)
next
  show "\<exists>n\<le>MAX_RETRIES. transactions (snd (POST env req w)) = transactions w + n \<and>
         sleeps (snd (POST env req w)) = sleeps w @ map (\<lambda>k. RETRY_DELAY * 2 ^ k) [1..<n]"
    by (rule POST_summary)
next
  show m: "map (\<lambda>k. RETRY_DELAY * 2 ^ k) [1..<MAX_RETRIES] = [200, 400]"
    by (simp add: MAX_RETRIES_def RETRY_DELAY_def eval_nat_numeral upt_rec)
  obtain n where n: "n \<le> MAX_RETRIES"
    "sleeps (snd (POST env req w)) = sleeps w @ map (\<lambda>k. RETRY_DELAY * 2 ^ k) [1..<n]"
    using POST_summary[of env req w] by blast
  have "prefix [1..<n] [1..<MAX_RETRIES]"
    using n(1) by (metis le_Suc_ex prefixI upt_add_eq_append le0 not_less_eq_eq upt_conv_Nil
        Nil_prefix nat_le_linear)
  then have "prefix (map (\<lambda>k. RETRY_DELAY * 2 ^ k) [1..<n]) [200, 400]"
    using m map_mono_prefix by metis
  with n(2) show "\<exists>ws. sleeps (snd (POST env req w)) = sleeps w @ ws \<and> prefix ws [200, 400]"
    by blast
qed

theorem backoff_delays_witness:
  "catch_clause 1 record_not_found world1 = (None, 2, world1\<lparr>sleeps := [400]\<rparr>)
   \<and> (2::nat) = Suc 1
   \<and> sleeps (world1\<lparr>sleeps := [400]\<rparr>) = sleeps world1 @ [RETRY_DELAY * 2 ^ 2]"
proof -
  have h: "catch_clause 1 record_not_found world1 = (None, 2, world1\<lparr>sleeps := [400]\<rparr>)"
    by (simp add: catch_clause_def record_not_found_retryable MAX_RETRIES_def RETRY_DELAY_def
        world1_def)
  from backoff_delays [of 1 record_not_found world1 2 "world1\<lparr>sleeps := [400]\<rparr>"] h
  show ?thesis by blast
qed

text \<open>
  Claim C9. The \<^verbatim>\<open>catch\<close> clause classifies by the message alone: a thrown
  \<^verbatim>\<open>Error\<close> counts as "user not found" exactly when its message contains the text
  \<^verbatim>\<open>User not found\<close>. Whatever threw it, such an error ends the call in that attempt with
  status 404 and the body \<^verbatim>\<open>{ error: 'User not found' }\<close>, with no wait and no further
  attempt; the row may well be present.
\<close>

theorem not_found_by_substring:
  assumes "transaction (env k) tid pts (db w) = (Inl (Error m), d')"
    and "sublist ''User not found'' m" and "k < MAX_RETRIES"
  shows "is_user_not_found (Error m) = sublist ''User not found'' m
         \<and> award_loop env tid pts k w =
             (Some (NextResponse_json (ErrorBody ''User not found'') 404),
              w\<lparr>db := d', transactions := Suc (transactions w)\<rparr>)"
proof -
  have c: "is_user_not_found (Error m) = sublist ''User not found'' m"
    by (simp add: is_user_not_found_def str_includes_sublist)
  with assms(2) have "is_user_not_found (Error m)" by simp
  with assms(1,3) c show ?thesis
    by (simp add: award_loop_not_found)
qed

theorem not_found_by_substring_witness:
  "db world1 ''u1'' = Some u1
   \<and> is_user_not_found (Error ''replica: User not found in cache'')
   \<and> award_loop (always (unreachable (Error ''replica: User not found in cache'') 2000))
        ''u1'' (num 20) 0 world1 =
       (Some (NextResponse_json (ErrorBody ''User not found'') 404),
        world1\<lparr>db := db world1, transactions := Suc (transactions world1)\<rparr>)"
proof -
  have t: "transaction (always (unreachable (Error ''replica: User not found in cache'') 2000) 0)
             ''u1'' (num 20) (db world1) =
           (Inl (Error ''replica: User not found in cache''), db world1)"
    by (simp add: transaction_def always_def unreachable_def)
  have "str_includes ''replica: User not found in cache'' ''User not found''"
    by simp
  then have s: "sublist ''User not found'' ''replica: User not found in cache''"
    by (simp only: str_includes_sublist)
  have k: "0 < MAX_RETRIES" by (simp add: MAX_RETRIES_def)
  from not_found_by_substring
      [where env = "always (unreachable (Error ''replica: User not found in cache'') 2000)"
         and k = 0, OF t s k] s
  show ?thesis
    by (simp add: world1_def)
qed

text \<open>
  Claim C6, as the code has it. The \<^verbatim>\<open>catch\<close> clause does not look at the kind of a
  failure. Every value thrown inside a transaction attempt that is not an \<^verbatim>\<open>Error\<close> whose
  message contains \<^verbatim>\<open>User not found\<close> (a conflict of the conditional update, an
  unreachable gateway or a malformed answer alike) is followed, in the first and the
  second attempt, by the backoff wait and another attempt; in the third attempt it ends
  the call with status 500 and the body
  \<^verbatim>\<open>{ error: 'Failed to add points after multiple attempts' }\<close>.
\<close>

theorem every_failure_retried:
  assumes "transaction (env k) tid pts (db w) = (Inl x, d')"
    and "\<not> is_user_not_found x" and "k < MAX_RETRIES"
  shows "award_loop env tid pts k w =
           (if k < MAX_RETRIES - 1 then
              award_loop env tid pts (Suc k)
                (w\<lparr>db := d', transactions := Suc (transactions w),
                   sleeps := sleeps w @ [RETRY_DELAY * 2 ^ Suc k]\<rparr>)
            else
              (Some (NextResponse_json
                 (ErrorBody ''Failed to add points after multiple attempts'') 500),
               w\<lparr>db := d', transactions := Suc (transactions w),
                  console := console w @
                    [(''Max retries reached for fruit spinner points:'', x)]\<rparr>))"
proof (cases "k < MAX_RETRIES - 1")
  case True
  with assms(1,2) show ?thesis by (simp add: award_loop_retry)
next
  case False
  with assms(3) have "k = MAX_RETRIES - 1" by simp
  with assms(1,2) False show ?thesis by (simp add: award_loop_exhausted)
qed

lemma connection_refused_retryable: "\<not> is_user_not_found (Error ''Connection refused'')"
  by (simp add: is_user_not_found_def)

lemma flaky_first_attempt:
  "transaction (flaky (Error ''Connection refused'') 2000 0) ''u1'' (num 20) (db world1) =
     (Inl (Error ''Connection refused''), db world1)"
  by (simp add: transaction_def flaky_def unreachable_def)

lemma flaky_second_attempt:
  "award_loop (flaky (Error ''Connection refused'') 2000) ''u1'' (num 20) (Suc 0)
     (world1\<lparr>db := db world1, transactions := Suc (transactions world1),
        sleeps := sleeps world1 @ [RETRY_DELAY * 2 ^ Suc 0]\<rparr>) =
   (Some (NextResponse_json
      (award_result \<lparr>points = number_of_int 120, pointsBalance = number_of_int 120,
                      lastPointsUpdateTimestamp = 2001\<rparr> (num 20)) 200),
    \<lparr>db = [''u1'' \<mapsto> \<lparr>points = number_of_int 120, pointsBalance = number_of_int 120,
                     lastPointsUpdateTimestamp = 2001\<rparr>],
     console = [], sleeps = [200], transactions = 2\<rparr>)"
  by (subst award_loop.simps)
    (simp add: MAX_RETRIES_def RETRY_DELAY_def transaction_def flaky_def quiet_def world1_def
      u1_def user_findUnique_def user_update_def Let_def num_def js_add_number_of_int)

theorem every_failure_retried_witness:
  "award_loop (flaky (Error ''Connection refused'') 2000) ''u1'' (num 20) 0 world1 =
   (Some (NextResponse_json
      (award_result \<lparr>points = number_of_int 120, pointsBalance = number_of_int 120,
                      lastPointsUpdateTimestamp = 2001\<rparr> (num 20)) 200),
    \<lparr>db = [''u1'' \<mapsto> \<lparr>points = number_of_int 120, pointsBalance = number_of_int 120,
                     lastPointsUpdateTimestamp = 2001\<rparr>],
     console = [], sleeps = [200], transactions = 2\<rparr>)"
proof -
  have k: "0 < MAX_RETRIES" by (simp add: MAX_RETRIES_def)
  have "award_loop (flaky (Error ''Connection refused'') 2000) ''u1'' (num 20) 0 world1 =
        award_loop (flaky (Error ''Connection refused'') 2000) ''u1'' (num 20) (Suc 0)
          (world1\<lparr>db := db world1, transactions := Suc (transactions world1),
             sleeps := sleeps world1 @ [RETRY_DELAY * 2 ^ Suc 0]\<rparr>)"
    using every_failure_retried
      [where env = "flaky (Error ''Connection refused'') 2000" and k = 0,
        OF flaky_first_attempt connection_refused_retryable k]
    by (simp add: MAX_RETRIES_def)
  then show ?thesis
    by (simp only: flaky_second_attempt)
qed

text \<open>
  The claim as it was stated fails: the gateway rejects the first read with an error that
  is no conflict, and the call waits 200, opens a second transaction and succeeds.
\<close>

theorem gateway_failure_retried_counterexample:
  "POST (flaky (Error ''Connection refused'') 2000) (json_request ''u1'' (num 20)) world1 =
   (Some \<lparr>status = 200,
           body = ResultBody True ''Fruit spinner points added successfully''
                    (number_of_int 120) (number_of_int 120) (num 20)\<rparr>,
    \<lparr>db = [''u1'' \<mapsto> \<lparr>points = number_of_int 120, pointsBalance = number_of_int 120,
                     lastPointsUpdateTimestamp = 2001\<rparr>],
     console = [], sleeps = [200], transactions = 2\<rparr>)"
proof -
  have "POST (flaky (Error ''Connection refused'') 2000) (json_request ''u1'' (num 20)) world1 =
        award_loop (flaky (Error ''Connection refused'') 2000) ''u1'' (num 20) 0 world1"
    by (simp add: POST_def json_request_def less_than_zero_num)
  also have "\<dots> = award_loop (flaky (Error ''Connection refused'') 2000) ''u1'' (num 20) (Suc 0)
     (world1\<lparr>db := db world1, transactions := Suc (transactions world1),
        sleeps := sleeps world1 @ [RETRY_DELAY * 2 ^ Suc 0]\<rparr>)"
    using flaky_first_attempt connection_refused_retryable
    by (rule award_loop_retry) (simp add: MAX_RETRIES_def)
  also note flaky_second_attempt
  finally show ?thesis
    by (simp add: NextResponse_json_def award_result_def)
qed

lemma award_loop_200:
  assumes "award_loop env tid pts 0 w = (Some r, w')" and "status r = 200"
  shows "\<exists>k<MAX_RETRIES. \<exists>u0 u x. pts = Number x \<and>
           (\<forall>j<k. retried (outcome_at env tid pts j w)) \<and>
           find_fault (env k) = None \<and> update_fault (env k) = None \<and>
           db (world_at env tid pts k w) tid = Some u0 \<and>
           concurrent (env k) (db (world_at env tid pts k w)) tid = Some u \<and>
           lastPointsUpdateTimestamp u = lastPointsUpdateTimestamp u0 \<and>
           r = NextResponse_json
                 (ResultBody True ''Fruit spinner points added successfully''
                    (js_add (points u) x) (js_add (pointsBalance u) x) pts) 200 \<and>
           db w' = (concurrent (env k) (db (world_at env tid pts k w)))
                     (tid \<mapsto> u\<lparr>points := js_add (points u) x,
                                pointsBalance := js_add (pointsBalance u) x,
                                lastPointsUpdateTimestamp := now (env k)\<rparr>) \<and>
           transactions w' = transactions w + Suc k"
proof -
  obtain k where k: "k < MAX_RETRIES" "\<forall>j<k. retried (outcome_at env tid pts j w)"
    "\<not> retried (outcome_at env tid pts k w) \<or> k = MAX_RETRIES - 1"
    using last_attempt_exists by blast
  let ?w0 = "world_at env tid pts k w"
  obtain out d' where t: "transaction (env k) tid pts (db ?w0) = (out, d')"
    by (cases "transaction (env k) tid pts (db ?w0)")
  note e = award_loop_end[OF k(2,1,3)]
  from e assms t obtain res where out: "out = Inr res"
    and r: "r = NextResponse_json res 200"
    and w': "w' = ?w0\<lparr>db := d', transactions := Suc (transactions ?w0)\<rparr>"
    by (cases out) (auto simp: outcome_at_def Let_def NextResponse_json_def split: if_splits)
  from transaction_Inr[OF t[unfolded out]] obtain u0 u x where
    "pts = Number x"
    "find_fault (env k) = None" "update_fault (env k) = None" "db ?w0 tid = Some u0"
    "concurrent (env k) (db ?w0) tid = Some u"
    "lastPointsUpdateTimestamp u = lastPointsUpdateTimestamp u0"
    "res = award_result (u\<lparr>points := js_add (points u) x,
                             pointsBalance := js_add (pointsBalance u) x,
                             lastPointsUpdateTimestamp := now (env k)\<rparr>) pts"
    "d' = (concurrent (env k) (db ?w0))(tid \<mapsto> u\<lparr>points := js_add (points u) x,
                   pointsBalance := js_add (pointsBalance u) x,
                   lastPointsUpdateTimestamp := now (env k)\<rparr>)"
    by blast
  with k(1,2) r w' show ?thesis
    by (intro exI[of _ k] exI[of _ u0] exI[of _ u] exI[of _ x])
      (simp add: award_result_def world_at_transactions)
qed

lemma POST_200:
  assumes "POST env (json_request tid pts) w = (Some r, w')" and "status r = 200"
  shows "tid \<noteq> [] \<and> pts \<noteq> Undefined \<and> \<not> less_than_zero pts \<and>
         award_loop env tid pts 0 w = (Some r, w')"
  using assms
  by (auto simp: POST_def json_request_def NextResponse_json_def split: if_splits)

text \<open>An undisturbed first attempt on an existing row succeeds.\<close>

lemma award_undisturbed:
  assumes "db w tid = Some u" and "find_fault (env 0) = None" and "update_fault (env 0) = None"
    and "concurrent (env 0) (db w) = db w"
  shows "award_loop env tid (Number x) 0 w =
           (Some (NextResponse_json
              (ResultBody True ''Fruit spinner points added successfully''
                 (js_add (points u) x) (js_add (pointsBalance u) x) (Number x)) 200),
            w\<lparr>db := (db w)(tid \<mapsto> u\<lparr>points := js_add (points u) x,
                                       pointsBalance := js_add (pointsBalance u) x,
                                       lastPointsUpdateTimestamp := now (env 0)\<rparr>),
              transactions := Suc (transactions w)\<rparr>)"
proof -
  have "transaction (env 0) tid (Number x) (db w) =
      (Inr (award_result (u\<lparr>points := js_add (points u) x,
                            pointsBalance := js_add (pointsBalance u) x,
                            lastPointsUpdateTimestamp := now (env 0)\<rparr>) (Number x)),
       (db w)(tid \<mapsto> u\<lparr>points := js_add (points u) x,
                         pointsBalance := js_add (pointsBalance u) x,
                         lastPointsUpdateTimestamp := now (env 0)\<rparr>))"
    using assms by (simp add: transaction_def user_findUnique_def user_update_def Let_def)
  then show ?thesis
    by (simp add: award_loop_success MAX_RETRIES_def award_result_def)
qed

lemma POST_undisturbed:
  assumes "db w tid = Some u" and "tid \<noteq> []" and "\<not> js_less_zero x"
    and "find_fault (env 0) = None" and "update_fault (env 0) = None"
    and "concurrent (env 0) (db w) = db w"
  shows "POST env (json_request tid (Number x)) w =
           (Some \<lparr>status = 200,
                   body = ResultBody True ''Fruit spinner points added successfully''
                            (js_add (points u) x) (js_add (pointsBalance u) x) (Number x)\<rparr>,
            w\<lparr>db := (db w)(tid \<mapsto> u\<lparr>points := js_add (points u) x,
                                       pointsBalance := js_add (pointsBalance u) x,
                                       lastPointsUpdateTimestamp := now (env 0)\<rparr>),
              transactions := Suc (transactions w)\<rparr>)"
proof -
  have "POST env (json_request tid (Number x)) w = award_loop env tid (Number x) 0 w"
    using assms(2,3) by (simp add: POST_def json_request_def)
  also note award_undisturbed[where env = env, OF assms(1,4,5,6)]
  finally show ?thesis by (simp add: NextResponse_json_def)
qed

text \<open>Without other writers, the attempts that fail leave the database as it was.\<close>

lemma world_at_db_isolated:
  assumes "\<forall>j<k. concurrent (env j) = (\<lambda>d. d)"
    and "\<forall>j<k. retried (outcome_at env tid pts j w)"
  shows "db (world_at env tid pts k w) = db w"
  using assms
proof (induction k)
  case 0
  then show ?case by simp
next
  case (Suc k)
  then have ih: "db (world_at env tid pts k w) = db w" by simp
  obtain out d' where t: "transaction (env k) tid pts (db w) = (out, d')"
    by (cases "transaction (env k) tid pts (db w)")
  from Suc.prems(2) have "retried (outcome_at env tid pts k w)" by simp
  with t ih obtain x where "out = Inl x"
    by (cases out) (auto simp: outcome_at_def retried_def)
  with t have "d' = db w \<or> d' = concurrent (env k) (db w)"
    using transaction_Inl_db by blast
  moreover from Suc.prems(1) have "concurrent (env k) = (\<lambda>d. d)" by simp
  ultimately have "d' = db w" by auto
  with t ih show ?case by (simp add: Let_def)
qed

text \<open>The scenarios: one undisturbed award each.\<close>

lemma scenario_award_20:
  "POST (always (quiet 2000)) (json_request ''u1'' (num 20)) world1 =
     (Some \<lparr>status = 200,
             body = ResultBody True ''Fruit spinner points added successfully''
                      (number_of_int 120) (number_of_int 120) (num 20)\<rparr>,
      \<lparr>db = [''u1'' \<mapsto> \<lparr>points = number_of_int 120, pointsBalance = number_of_int 120,
                       lastPointsUpdateTimestamp = 2000\<rparr>],
       console = [], sleeps = [], transactions = 1\<rparr>)"
  unfolding num_def
  by (subst POST_undisturbed[where u = u1])
    (simp_all add: world1_def u1_def always_def quiet_def js_less_zero_number_of_int
      js_add_number_of_int)

lemma scenario_award_20_same_clock:
  "POST (always (quiet 1000)) (json_request ''u1'' (num 20)) world1 =
     (Some \<lparr>status = 200,
             body = ResultBody True ''Fruit spinner points added successfully''
                      (number_of_int 120) (number_of_int 120) (num 20)\<rparr>,
      \<lparr>db = [''u1'' \<mapsto> \<lparr>points = number_of_int 120, pointsBalance = number_of_int 120,
                       lastPointsUpdateTimestamp = 1000\<rparr>],
       console = [], sleeps = [], transactions = 1\<rparr>)"
  unfolding num_def
  by (subst POST_undisturbed[where u = u1])
    (simp_all add: world1_def u1_def always_def quiet_def js_less_zero_number_of_int
      js_add_number_of_int)

lemma scenario_award_1_big:
  "POST (always (quiet 2000)) (json_request ''u1'' (num 1)) world_big =
     (Some \<lparr>status = 200,
             body = ResultBody True ''Fruit spinner points added successfully''
                      (number_of_int (2 ^ 53)) (number_of_int (2 ^ 53)) (num 1)\<rparr>,
      \<lparr>db = [''u1'' \<mapsto> \<lparr>points = number_of_int (2 ^ 53), pointsBalance = number_of_int (2 ^ 53),
                       lastPointsUpdateTimestamp = 2000\<rparr>],
       console = [], sleeps = [], transactions = 1\<rparr>)"
  unfolding num_def
  by (subst POST_undisturbed[where u = u_big])
    (simp_all add: world_big_def u_big_def always_def quiet_def js_less_zero_number_of_int
      js_add_above_safe del: power_numeral)

lemma award_isolated:
  assumes "award_loop env tid pts 0 w = (Some r, w')" and "status r = 200"
    and "\<forall>k<MAX_RETRIES. concurrent (env k) = (\<lambda>d. d)" and "db w tid = Some u"
  shows "\<exists>k<MAX_RETRIES. \<exists>x. pts = Number x \<and>
           concurrent (env k) (db (world_at env tid pts k w)) = db w \<and>
           db w' = (db w)(tid \<mapsto> u\<lparr>points := js_add (points u) x,
                                      pointsBalance := js_add (pointsBalance u) x,
                                      lastPointsUpdateTimestamp := now (env k)\<rparr>)"
proof -
  from award_loop_200[OF assms(1,2)] obtain k u' x where k: "k < MAX_RETRIES"
    and x: "pts = Number x"
    and f: "\<forall>j<k. retried (outcome_at env tid pts j w)"
    and u': "concurrent (env k) (db (world_at env tid pts k w)) tid = Some u'"
    and d: "db w' = (concurrent (env k) (db (world_at env tid pts k w)))
                     (tid \<mapsto> u'\<lparr>points := js_add (points u') x,
                                pointsBalance := js_add (pointsBalance u') x,
                                lastPointsUpdateTimestamp := now (env k)\<rparr>)"
    by blast
  from assms(3) k have c: "concurrent (env k) = (\<lambda>d. d)" and "\<forall>j<k. concurrent (env j) = (\<lambda>d. d)"
    by simp_all
  with f have "db (world_at env tid pts k w) = db w"
    by (intro world_at_db_isolated)
  with c u' d assms(4) k x show ?thesis by auto
qed

text \<open>
  Claim C1, as the code has it. A call that answers with status 200 was sent a number
  that is not below zero and has, in one of its at most three attempts, found the row,
  met no fault and found the stamp unchanged at the update. Its one update statement adds
  the requested amount to \<^verbatim>\<open>points\<close> and to \<^verbatim>\<open>pointsBalance\<close> of the row as the update
  finds it, in the arithmetic of doubles, and touches no other row; when no other writer
  commits during the call, that row is the row stored before the call. Each counter
  becomes the double nearest to the exact sum, and so grows by exactly the requested
  amount whenever the exact sum is a double (whole numbers up to \<open>2 ^ 53\<close> are). The
  update stores the clock reading of that attempt (\<^verbatim>\<open>new Date()\<close>) as
  \<^verbatim>\<open>lastPointsUpdateTimestamp\<close>: a new value whenever the reading differs from the stamp
  stored before. The response carries the two counters of the row as written and the
  amount as sent.
\<close>

theorem award_success:
  assumes "POST env (json_request tid pts) w = (Some r, w')" and "status r = 200"
  shows "tid \<noteq> [] \<and>
         (\<exists>x. pts = Number x \<and> \<not> js_less_zero x \<and>
            (\<exists>k<MAX_RETRIES. \<exists>u.
               concurrent (env k) (db (world_at env tid pts k w)) tid = Some u \<and>
               ((\<forall>j<MAX_RETRIES. concurrent (env j) = (\<lambda>d. d)) \<longrightarrow>
                  db w tid = Some u \<and>
                  concurrent (env k) (db (world_at env tid pts k w)) = db w) \<and>
               db w' = (concurrent (env k) (db (world_at env tid pts k w)))
                         (tid \<mapsto> u\<lparr>points := js_add (points u) x,
                                    pointsBalance := js_add (pointsBalance u) x,
                                    lastPointsUpdateTimestamp := now (env k)\<rparr>) \<and>
               r = \<lparr>status = 200,
                    body = ResultBody True ''Fruit spinner points added successfully''
                             (js_add (points u) x) (js_add (pointsBalance u) x) pts\<rparr> \<and>
               (\<forall>p d. rat_of (points u) = Some p \<and> rat_of x = Some d \<and>
                        exactly_representable (p + d) \<longrightarrow>
                      rat_of (js_add (points u) x) = Some (p + d)) \<and>
               (\<forall>b d. rat_of (pointsBalance u) = Some b \<and> rat_of x = Some d \<and>
                        exactly_representable (b + d) \<longrightarrow>
                      rat_of (js_add (pointsBalance u) x) = Some (b + d))))"
proof -
  from POST_200[OF assms] have v: "tid \<noteq> []" "\<not> less_than_zero pts"
    and l: "award_loop env tid pts 0 w = (Some r, w')" by simp_all
  from award_loop_200[OF l assms(2)] obtain k u x where k: "k < MAX_RETRIES"
    and x: "pts = Number x"
    and f: "\<forall>j<k. retried (outcome_at env tid pts j w)"
    and u: "concurrent (env k) (db (world_at env tid pts k w)) tid = Some u"
    and r: "r = NextResponse_json
                 (ResultBody True ''Fruit spinner points added successfully''
                    (js_add (points u) x) (js_add (pointsBalance u) x) pts) 200"
    and d: "db w' = (concurrent (env k) (db (world_at env tid pts k w)))
                     (tid \<mapsto> u\<lparr>points := js_add (points u) x,
                                pointsBalance := js_add (pointsBalance u) x,
                                lastPointsUpdateTimestamp := now (env k)\<rparr>)"
    by blast
  have iso: "db w tid = Some u \<and> concurrent (env k) (db (world_at env tid pts k w)) = db w"
    if a: "\<forall>j<MAX_RETRIES. concurrent (env j) = (\<lambda>d. d)"
  proof -
    from a k have c: "concurrent (env k) = (\<lambda>d. d)" and "\<forall>j<k. concurrent (env j) = (\<lambda>d. d)"
      by simp_all
    with f have "db (world_at env tid pts k w) = db w"
      by (intro world_at_db_isolated)
    with c u show ?thesis by simp
  qed
  have e1: "rat_of (js_add (points u) x) = Some (p + d)"
    if "rat_of (points u) = Some p \<and> rat_of x = Some d \<and> exactly_representable (p + d)"
    for p d using that by (simp add: js_add_exact)
  have e2: "rat_of (js_add (pointsBalance u) x) = Some (b + d)"
    if "rat_of (pointsBalance u) = Some b \<and> rat_of x = Some d \<and> exactly_representable (b + d)"
    for b d using that by (simp add: js_add_exact)
  from v(2) x have nx: "\<not> js_less_zero x" by simp
  from r have r': "r = \<lparr>status = 200,
                    body = ResultBody True ''Fruit spinner points added successfully''
                             (js_add (points u) x) (js_add (pointsBalance u) x) pts\<rparr>"
    by (simp add: NextResponse_json_def)
  from v(1) x nx k u iso d r' e1 e2 show ?thesis by blast
qed

theorem award_success_witness:
  "POST (always (quiet 2000)) (json_request ''u1'' (num 20)) world1 =
     (Some \<lparr>status = 200,
             body = ResultBody True ''Fruit spinner points added successfully''
                      (number_of_int 120) (number_of_int 120) (num 20)\<rparr>,
      \<lparr>db = [''u1'' \<mapsto> \<lparr>points = number_of_int 120, pointsBalance = number_of_int 120,
                       lastPointsUpdateTimestamp = 2000\<rparr>],
       console = [], sleeps = [], transactions = 1\<rparr>)
   \<and> ''u1'' \<noteq> []
   \<and> (\<exists>x. num 20 = Number x \<and> \<not> js_less_zero x)
   \<and> rat_of (points u1) = Some 100 \<and> rat_of (number_of_int 120) = Some (100 + 20)"
proof -
  note s = scenario_award_20
  have "status \<lparr>status = 200,
             body = ResultBody True ''Fruit spinner points added successfully''
                      (number_of_int 120) (number_of_int 120) (num 20)\<rparr> = 200"
    by simp
  from award_success [OF s this]
  have "''u1'' \<noteq> [] \<and> (\<exists>x. num 20 = Number x \<and> \<not> js_less_zero x)"
    by blast
  moreover have "rat_of (points u1) = Some 100"
    using rat_of_number_of_int[of 100] by (simp add: u1_def)
  moreover have "rat_of (number_of_int 120) = Some (100 + 20)"
    using rat_of_number_of_int[of 120] by simp
  ultimately show ?thesis using s by blast
qed

text \<open>
  The claim as it was stated fails in two ways. With the clock at the stored stamp, an
  award of 20 answers with status 200 and the stamp is what it was, not a new value. With
  the counters at \<open>2 ^ 53\<close>, an award of 1 answers with status 200 and both counters are
  still \<open>2 ^ 53\<close>: the double nearest to \<open>2 ^ 53 + 1\<close>.
\<close>

theorem award_not_exact_counterexample:
  "POST (always (quiet 1000)) (json_request ''u1'' (num 20)) world1 =
     (Some \<lparr>status = 200,
             body = ResultBody True ''Fruit spinner points added successfully''
                      (number_of_int 120) (number_of_int 120) (num 20)\<rparr>,
      \<lparr>db = [''u1'' \<mapsto> \<lparr>points = number_of_int 120, pointsBalance = number_of_int 120,
                       lastPointsUpdateTimestamp = 1000\<rparr>],
       console = [], sleeps = [], transactions = 1\<rparr>)
   \<and> lastPointsUpdateTimestamp u1 = 1000 \<and> db world1 ''u1'' = Some u1
   \<and> POST (always (quiet 2000)) (json_request ''u1'' (num 1)) world_big =
     (Some \<lparr>status = 200,
             body = ResultBody True ''Fruit spinner points added successfully''
                      (number_of_int (2 ^ 53)) (number_of_int (2 ^ 53)) (num 1)\<rparr>,
      \<lparr>db = [''u1'' \<mapsto> \<lparr>points = number_of_int (2 ^ 53), pointsBalance = number_of_int (2 ^ 53),
                       lastPointsUpdateTimestamp = 2000\<rparr>],
       console = [], sleeps = [], transactions = 1\<rparr>)
   \<and> db world_big ''u1'' = Some u_big
   \<and> rat_of (pointsBalance u_big) = Some (2 ^ 53)
   \<and> rat_of (number_of_int (2 ^ 53)) = Some (2 ^ 53)
   \<and> rat_of (number_of_int 1) = Some 1"
proof -
  have "rat_of (number_of_int (2 ^ 53)) = Some (2 ^ 53)"
    using rat_of_number_of_int[of "2 ^ 53"] by simp
  moreover have "rat_of (number_of_int 1) = Some 1"
    using rat_of_number_of_int[of 1] by simp
  ultimately show ?thesis
    using scenario_award_20_same_clock scenario_award_1_big
    by (simp add: u1_def world1_def u_big_def world_big_def del: power_numeral)
qed

text \<open>
  Claim C8, as the code has it. The award is not idempotent. Two calls with the same
  \<^verbatim>\<open>telegramId\<close> and the same points, one after the other and with no other writer in
  between, that both answer with status 200 add the amount twice, each addition in the
  arithmetic of doubles. Whenever the exact sums are doubles (whole numbers up to
  \<open>2 ^ 53\<close> are), \<^verbatim>\<open>points\<close> and \<^verbatim>\<open>pointsBalance\<close> end higher by exactly twice the amount:
  two awards of 5 add 10.
\<close>

theorem award_twice_adds_twice:
  assumes "POST env1 (json_request tid pts) w = (Some r1, w1)" and "status r1 = 200"
    and "POST env2 (json_request tid pts) w1 = (Some r2, w2)" and "status r2 = 200"
    and "\<forall>k<MAX_RETRIES. concurrent (env1 k) = (\<lambda>d. d)"
    and "\<forall>k<MAX_RETRIES. concurrent (env2 k) = (\<lambda>d. d)"
    and "db w tid = Some u"
  shows "\<exists>x u2. pts = Number x \<and> \<not> js_less_zero x \<and> db w2 tid = Some u2 \<and>
           pointsBalance u2 = js_add (js_add (pointsBalance u) x) x \<and>
           points u2 = js_add (js_add (points u) x) x \<and>
           (\<forall>p b d. rat_of (points u) = Some p \<and> rat_of (pointsBalance u) = Some b \<and>
                     rat_of x = Some d \<and>
                     exactly_representable (p + d) \<and> exactly_representable (p + 2 * d) \<and>
                     exactly_representable (b + d) \<and> exactly_representable (b + 2 * d) \<longrightarrow>
                   rat_of (pointsBalance u2) = Some (b + 2 * d) \<and>
                   rat_of (points u2) = Some (p + 2 * d) \<and> 0 \<le> d)"
proof -
  from POST_200[OF assms(1,2)] have v: "\<not> less_than_zero pts"
    and l1: "award_loop env1 tid pts 0 w = (Some r1, w1)" by simp_all
  from POST_200[OF assms(3,4)] have l2: "award_loop env2 tid pts 0 w1 = (Some r2, w2)" by simp
  from award_isolated[OF l1 assms(2,5,7)] obtain date1 x where x: "pts = Number x" and
    d1: "db w1 = (db w)(tid \<mapsto> u\<lparr>points := js_add (points u) x,
                                   pointsBalance := js_add (pointsBalance u) x,
                                   lastPointsUpdateTimestamp := date1\<rparr>)"
    by blast
  let ?u1 = "u\<lparr>points := js_add (points u) x, pointsBalance := js_add (pointsBalance u) x,
               lastPointsUpdateTimestamp := date1\<rparr>"
  from d1 have "db w1 tid = Some ?u1" by simp
  from award_isolated[OF l2 assms(4,6) this] x obtain date2 where
    d2: "db w2 = (db w1)(tid \<mapsto> ?u1\<lparr>points := js_add (points ?u1) x,
                                    pointsBalance := js_add (pointsBalance ?u1) x,
                                    lastPointsUpdateTimestamp := date2\<rparr>)"
    by auto
  let ?u2 = "?u1\<lparr>points := js_add (points ?u1) x, pointsBalance := js_add (pointsBalance ?u1) x,
                 lastPointsUpdateTimestamp := date2\<rparr>"
  from v x have nx: "\<not> js_less_zero x" by simp
  have ex: "rat_of (pointsBalance ?u2) = Some (b + 2 * d) \<and>
            rat_of (points ?u2) = Some (p + 2 * d) \<and> 0 \<le> d"
    if h: "rat_of (points u) = Some p \<and> rat_of (pointsBalance u) = Some b \<and>
           rat_of x = Some d \<and>
           exactly_representable (p + d) \<and> exactly_representable (p + 2 * d) \<and>
           exactly_representable (b + d) \<and> exactly_representable (b + 2 * d)" for p b d
  proof -
    from h have p1: "rat_of (js_add (points u) x) = Some (p + d)"
      and b1: "rat_of (js_add (pointsBalance u) x) = Some (b + d)"
      by (simp_all add: js_add_exact)
    from h have "exactly_representable (p + d + d)" and "exactly_representable (b + d + d)"
      by (simp_all add: algebra_simps)
    with p1 b1 h have "rat_of (js_add (js_add (points u) x) x) = Some (p + d + d)"
      and "rat_of (js_add (js_add (pointsBalance u) x) x) = Some (b + d + d)"
      by (simp_all add: js_add_exact)
    moreover from h nx have "0 \<le> d" by (cases x) auto
    ultimately show ?thesis by simp
  qed
  have "db w2 tid = Some ?u2" using d2 by simp
  moreover have "pointsBalance ?u2 = js_add (js_add (pointsBalance u) x) x"
    and "points ?u2 = js_add (js_add (points u) x) x" by simp_all
  ultimately show ?thesis using x nx ex by blast
qed

lemma scenario_award_5:
  "POST (always (quiet 2000)) (json_request ''u1'' (num 5)) world1 =
     (Some \<lparr>status = 200,
             body = ResultBody True ''Fruit spinner points added successfully''
                      (number_of_int 105) (number_of_int 105) (num 5)\<rparr>,
      \<lparr>db = [''u1'' \<mapsto> \<lparr>points = number_of_int 105, pointsBalance = number_of_int 105,
                       lastPointsUpdateTimestamp = 2000\<rparr>],
       console = [], sleeps = [], transactions = 1\<rparr>)"
  unfolding num_def
  by (subst POST_undisturbed[where u = u1])
    (simp_all add: world1_def u1_def always_def quiet_def js_less_zero_number_of_int
      js_add_number_of_int)

lemma scenario_award_5_again:
  "POST (always (quiet 3000)) (json_request ''u1'' (num 5))
     \<lparr>db = [''u1'' \<mapsto> \<lparr>points = number_of_int 105, pointsBalance = number_of_int 105,
                       lastPointsUpdateTimestamp = 2000\<rparr>],
       console = [], sleeps = [], transactions = 1\<rparr> =
     (Some \<lparr>status = 200,
             body = ResultBody True ''Fruit spinner points added successfully''
                      (number_of_int 110) (number_of_int 110) (num 5)\<rparr>,
      \<lparr>db = [''u1'' \<mapsto> \<lparr>points = number_of_int 110, pointsBalance = number_of_int 110,
                       lastPointsUpdateTimestamp = 3000\<rparr>],
       console = [], sleeps = [], transactions = 2\<rparr>)"
  unfolding num_def
  by (subst POST_undisturbed[where u = "\<lparr>points = number_of_int 105,
        pointsBalance = number_of_int 105, lastPointsUpdateTimestamp = 2000\<rparr>"])
    (simp_all add: always_def quiet_def js_less_zero_number_of_int js_add_number_of_int)

theorem award_twice_adds_twice_witness:
  "POST (always (quiet 2000)) (json_request ''u1'' (num 5)) world1 =
     (Some \<lparr>status = 200,
             body = ResultBody True ''Fruit spinner points added successfully''
                      (number_of_int 105) (number_of_int 105) (num 5)\<rparr>,
      \<lparr>db = [''u1'' \<mapsto> \<lparr>points = number_of_int 105, pointsBalance = number_of_int 105,
                       lastPointsUpdateTimestamp = 2000\<rparr>],
       console = [], sleeps = [], transactions = 1\<rparr>)
   \<and> POST (always (quiet 3000)) (json_request ''u1'' (num 5))
     \<lparr>db = [''u1'' \<mapsto> \<lparr>points = number_of_int 105, pointsBalance = number_of_int 105,
                       lastPointsUpdateTimestamp = 2000\<rparr>],
       console = [], sleeps = [], transactions = 1\<rparr> =
     (Some \<lparr>status = 200,
             body = ResultBody True ''Fruit spinner points added successfully''
                      (number_of_int 110) (number_of_int 110) (num 5)\<rparr>,
      \<lparr>db = [''u1'' \<mapsto> \<lparr>points = number_of_int 110, pointsBalance = number_of_int 110,
                       lastPointsUpdateTimestamp = 3000\<rparr>],
       console = [], sleeps = [], transactions = 2\<rparr>)
   \<and> db world1 ''u1'' = Some u1
   \<and> rat_of (pointsBalance u1) = Some 100 \<and> rat_of (points u1) = Some 100
   \<and> rat_of (number_of_int 5) = Some 5
   \<and> rat_of (number_of_int 110) = Some (100 + 2 * 5)"
proof -
  have i1: "\<forall>k<MAX_RETRIES. concurrent (always (quiet 2000) k) = (\<lambda>d. d)"
    and i2: "\<forall>k<MAX_RETRIES. concurrent (always (quiet 3000) k) = (\<lambda>d. d)"
    by (simp_all add: always_def quiet_def)
  have u: "db world1 ''u1'' = Some u1" by (simp add: world1_def)
  have r: "rat_of (pointsBalance u1) = Some 100" "rat_of (points u1) = Some 100"
    "rat_of (number_of_int 5) = Some 5"
    using rat_of_number_of_int[of 100] rat_of_number_of_int[of 5] by (simp_all add: u1_def)
  have e: "exactly_representable (100 + 5)" "exactly_representable (100 + 2 * 5)"
    using safe_integer_representable[of 105] safe_integer_representable[of 110] by simp_all
  from award_twice_adds_twice [OF scenario_award_5 _ scenario_award_5_again _ i1 i2 u]
  obtain x u2 where x: "num 5 = Number x"
    and u2: "[''u1'' \<mapsto> \<lparr>points = number_of_int 110, pointsBalance = number_of_int 110,
                       lastPointsUpdateTimestamp = 3000\<rparr>] ''u1'' = Some u2"
    and ex: "\<forall>p b d. rat_of (points u1) = Some p \<and> rat_of (pointsBalance u1) = Some b \<and>
                     rat_of x = Some d \<and>
                     exactly_representable (p + d) \<and> exactly_representable (p + 2 * d) \<and>
                     exactly_representable (b + d) \<and> exactly_representable (b + 2 * d) \<longrightarrow>
                   rat_of (pointsBalance u2) = Some (b + 2 * d) \<and>
                   rat_of (points u2) = Some (p + 2 * d) \<and> 0 \<le> d"
    by auto
  from x have x5: "x = number_of_int 5" by (simp add: num_def)
  from ex r e x5 have "rat_of (pointsBalance u2) = Some (100 + 2 * 5)" by blast
  moreover from u2 have "pointsBalance u2 = number_of_int 110" by auto
  ultimately have "rat_of (number_of_int 110) = Some (100 + 2 * 5)" by simp
  with scenario_award_5 scenario_award_5_again u r show ?thesis by blast
qed

text \<open>
  The claim as it was stated fails with the counters at \<open>2 ^ 53\<close>: two awards of 1 both
  answer with status 200 and the balance is still \<open>2 ^ 53\<close>, not higher by 2.
\<close>

lemma scenario_award_1_big_again:
  "POST (always (quiet 3000)) (json_request ''u1'' (num 1))
     \<lparr>db = [''u1'' \<mapsto> \<lparr>points = number_of_int (2 ^ 53), pointsBalance = number_of_int (2 ^ 53),
                       lastPointsUpdateTimestamp = 2000\<rparr>],
       console = [], sleeps = [], transactions = 1\<rparr> =
     (Some \<lparr>status = 200,
             body = ResultBody True ''Fruit spinner points added successfully''
                      (number_of_int (2 ^ 53)) (number_of_int (2 ^ 53)) (num 1)\<rparr>,
      \<lparr>db = [''u1'' \<mapsto> \<lparr>points = number_of_int (2 ^ 53), pointsBalance = number_of_int (2 ^ 53),
                       lastPointsUpdateTimestamp = 3000\<rparr>],
       console = [], sleeps = [], transactions = 2\<rparr>)"
  unfolding num_def
  by (subst POST_undisturbed[where u = "\<lparr>points = number_of_int (2 ^ 53),
        pointsBalance = number_of_int (2 ^ 53), lastPointsUpdateTimestamp = 2000\<rparr>"])
    (simp_all add: always_def quiet_def js_less_zero_number_of_int js_add_above_safe
      del: power_numeral)

theorem award_twice_at_2_53_counterexample:
  "POST (always (quiet 2000)) (json_request ''u1'' (num 1)) world_big =
     (Some \<lparr>status = 200,
             body = ResultBody True ''Fruit spinner points added successfully''
                      (number_of_int (2 ^ 53)) (number_of_int (2 ^ 53)) (num 1)\<rparr>,
      \<lparr>db = [''u1'' \<mapsto> \<lparr>points = number_of_int (2 ^ 53), pointsBalance = number_of_int (2 ^ 53),
                       lastPointsUpdateTimestamp = 2000\<rparr>],
       console = [], sleeps = [], transactions = 1\<rparr>)
   \<and> POST (always (quiet 3000)) (json_request ''u1'' (num 1))
     \<lparr>db = [''u1'' \<mapsto> \<lparr>points = number_of_int (2 ^ 53), pointsBalance = number_of_int (2 ^ 53),
                       lastPointsUpdateTimestamp = 2000\<rparr>],
       console = [], sleeps = [], transactions = 1\<rparr> =
     (Some \<lparr>status = 200,
             body = ResultBody True ''Fruit spinner points added successfully''
                      (number_of_int (2 ^ 53)) (number_of_int (2 ^ 53)) (num 1)\<rparr>,
      \<lparr>db = [''u1'' \<mapsto> \<lparr>points = number_of_int (2 ^ 53), pointsBalance = number_of_int (2 ^ 53),
                       lastPointsUpdateTimestamp = 3000\<rparr>],
       console = [], sleeps = [], transactions = 2\<rparr>)
   \<and> db world_big ''u1'' = Some u_big
   \<and> rat_of (pointsBalance u_big) = Some (2 ^ 53)
   \<and> rat_of (number_of_int (2 ^ 53)) \<noteq> Some (2 ^ 53 + 2 * 1)
   \<and> 0 \<le> (1::int)"
proof -
  have "rat_of (number_of_int (2 ^ 53)) = Some (2 ^ 53)"
    using rat_of_number_of_int[of "2 ^ 53"] by simp
  then show ?thesis
    using scenario_award_1_big scenario_award_1_big_again
    by (simp add: u_big_def world_big_def del: power_numeral)
qed

text \<open>
  Claim C10, as the code has it. A request for zero points to an existing user passes the
  validation and, in an undisturbed attempt, performs the conditional update: the two
  counters keep their values and \<^verbatim>\<open>lastPointsUpdateTimestamp\<close> is set to the clock reading
  of the attempt. Whenever that reading differs from the stamp stored before, the stored
  row has changed, and another award in flight that read the row before finds no matching
  row at its own update: the zero award has caused it a conflict.
\<close>

theorem zero_award_rewrites_stamp:
  assumes "db w tid = Some u" and "tid \<noteq> []"
    and "find_fault (env 0) = None" and "update_fault (env 0) = None"
    and "concurrent (env 0) (db w) = db w"
  shows "POST env (json_request tid (num 0)) w =
           (Some \<lparr>status = 200,
                   body = ResultBody True ''Fruit spinner points added successfully''
                            (points u) (pointsBalance u) (num 0)\<rparr>,
            w\<lparr>db := (db w)(tid \<mapsto> u\<lparr>lastPointsUpdateTimestamp := now (env 0)\<rparr>),
              transactions := Suc (transactions w)\<rparr>)
         \<and> (now (env 0) \<noteq> lastPointsUpdateTimestamp u \<longrightarrow>
              (db w)(tid \<mapsto> u\<lparr>lastPointsUpdateTimestamp := now (env 0)\<rparr>) \<noteq> db w
              \<and> user_update ((db w)(tid \<mapsto> u\<lparr>lastPointsUpdateTimestamp := now (env 0)\<rparr>))
                   tid (lastPointsUpdateTimestamp u) (Number y) date = Inl record_not_found)"
proof (intro conjI impI)
  have "POST env (json_request tid (num 0)) w = award_loop env tid (num 0) 0 w"
    using assms(2) by (simp add: POST_def json_request_def less_than_zero_num)
  also have "\<dots> = award_loop env tid (Number (number_of_int 0)) 0 w" by (simp add: num_def)
  also note award_undisturbed[where env = env, OF assms(1,3,4,5)]
  finally show "POST env (json_request tid (num 0)) w =
           (Some \<lparr>status = 200,
                   body = ResultBody True ''Fruit spinner points added successfully''
                            (points u) (pointsBalance u) (num 0)\<rparr>,
            w\<lparr>db := (db w)(tid \<mapsto> u\<lparr>lastPointsUpdateTimestamp := now (env 0)\<rparr>),
              transactions := Suc (transactions w)\<rparr>)"
    by (simp add: NextResponse_json_def num_def)
next
  assume n: "now (env 0) \<noteq> lastPointsUpdateTimestamp u"
  show "(db w)(tid \<mapsto> u\<lparr>lastPointsUpdateTimestamp := now (env 0)\<rparr>) \<noteq> db w"
  proof
    assume "(db w)(tid \<mapsto> u\<lparr>lastPointsUpdateTimestamp := now (env 0)\<rparr>) = db w"
    then have "((db w)(tid \<mapsto> u\<lparr>lastPointsUpdateTimestamp := now (env 0)\<rparr>)) tid = db w tid"
      by simp
    with assms(1) have "u\<lparr>lastPointsUpdateTimestamp := now (env 0)\<rparr> = u" by simp
    then have "lastPointsUpdateTimestamp (u\<lparr>lastPointsUpdateTimestamp := now (env 0)\<rparr>)
                 = lastPointsUpdateTimestamp u" by simp
    with n show False by simp
  qed
  from n show "user_update ((db w)(tid \<mapsto> u\<lparr>lastPointsUpdateTimestamp := now (env 0)\<rparr>))
                   tid (lastPointsUpdateTimestamp u) (Number y) date = Inl record_not_found"
    by (simp add: user_update_def)
qed

theorem zero_award_rewrites_stamp_witness:
  "POST (always (quiet 2000)) (json_request ''u1'' (num 0)) world1 =
     (Some \<lparr>status = 200,
             body = ResultBody True ''Fruit spinner points added successfully''
                      (number_of_int 100) (number_of_int 100) (num 0)\<rparr>,
      \<lparr>db = [''u1'' \<mapsto> \<lparr>points = number_of_int 100, pointsBalance = number_of_int 100,
                       lastPointsUpdateTimestamp = 2000\<rparr>],
       console = [], sleeps = [], transactions = 1\<rparr>)
   \<and> [''u1'' \<mapsto> \<lparr>points = number_of_int 100, pointsBalance = number_of_int 100,
                   lastPointsUpdateTimestamp = 2000\<rparr>]
       \<noteq> db world1
   \<and> user_update [''u1'' \<mapsto> \<lparr>points = number_of_int 100, pointsBalance = number_of_int 100,
                               lastPointsUpdateTimestamp = 2000\<rparr>]
        ''u1'' 1000 (Number (number_of_int 15)) 2001 = Inl record_not_found"
proof -
  have h: "db world1 ''u1'' = Some u1" "''u1'' \<noteq> []"
    "find_fault (always (quiet 2000) 0) = None" "update_fault (always (quiet 2000) 0) = None"
    "concurrent (always (quiet 2000) 0) (db world1) = db world1"
    by (simp_all add: world1_def always_def quiet_def)
  have n: "now (always (quiet 2000) 0) \<noteq> lastPointsUpdateTimestamp u1"
    by (simp add: always_def quiet_def u1_def)
  from zero_award_rewrites_stamp
      [where env = "always (quiet 2000)" and y = "number_of_int 15" and date = 2001, OF h] n
  have "POST (always (quiet 2000)) (json_request ''u1'' (num 0)) world1 =
           (Some \<lparr>status = 200,
                   body = ResultBody True ''Fruit spinner points added successfully''
                            (points u1) (pointsBalance u1) (num 0)\<rparr>,
            world1\<lparr>db := (db world1)(''u1'' \<mapsto> u1\<lparr>lastPointsUpdateTimestamp := now (always (quiet 2000) 0)\<rparr>),
              transactions := Suc (transactions world1)\<rparr>)"
    and "(db world1)(''u1'' \<mapsto> u1\<lparr>lastPointsUpdateTimestamp := now (always (quiet 2000) 0)\<rparr>) \<noteq> db world1"
    and "user_update ((db world1)(''u1'' \<mapsto> u1\<lparr>lastPointsUpdateTimestamp := now (always (quiet 2000) 0)\<rparr>))
                   ''u1'' (lastPointsUpdateTimestamp u1) (Number (number_of_int 15)) 2001 =
           Inl record_not_found"
    by blast+
  then show ?thesis
    by (simp add: world1_def u1_def always_def quiet_def)
qed

text \<open>
  The claim as it was stated fails when the clock reading equals the stored stamp: the
  zero award answers with status 200 and the stored row, stamp included, is what it was.
\<close>

theorem zero_award_same_stamp_counterexample:
  "fst (POST (always (quiet 1000)) (json_request ''u1'' (num 0)) world1) =
     Some \<lparr>status = 200,
            body = ResultBody True ''Fruit spinner points added successfully''
                     (number_of_int 100) (number_of_int 100) (num 0)\<rparr>
   \<and> db (snd (POST (always (quiet 1000)) (json_request ''u1'' (num 0)) world1)) = db world1
   \<and> db world1 ''u1'' =
       Some \<lparr>points = number_of_int 100, pointsBalance = number_of_int 100,
              lastPointsUpdateTimestamp = 1000\<rparr>"
proof -
  have "POST (always (quiet 1000)) (json_request ''u1'' (num 0)) world1 =
        award_loop (always (quiet 1000)) ''u1'' (Number (number_of_int 0)) 0 world1"
    by (simp add: POST_def json_request_def num_def js_less_zero_number_of_int)
  also have "\<dots> = (Some (NextResponse_json
              (ResultBody True ''Fruit spinner points added successfully''
                 (js_add (points u1) (number_of_int 0))
                 (js_add (pointsBalance u1) (number_of_int 0)) (Number (number_of_int 0))) 200),
            world1\<lparr>db := (db world1)(''u1'' \<mapsto>
                    u1\<lparr>points := js_add (points u1) (number_of_int 0),
                       pointsBalance := js_add (pointsBalance u1) (number_of_int 0),
                       lastPointsUpdateTimestamp := now (always (quiet 1000) 0)\<rparr>),
              transactions := Suc (transactions world1)\<rparr>)"
    by (rule award_undisturbed) (simp_all add: world1_def always_def quiet_def)
  finally show ?thesis
    by (simp add: world1_def u1_def always_def quiet_def NextResponse_json_def num_def)
qed

section \<open>Calls that run at the same time\<close>


lemma committed_unfinished: "\<not> finished c \<Longrightarrow> committed c = 0"
  by (auto simp: finished_def committed_def split: pc.splits)

lemma call_step_finished: "finished c \<Longrightarrow> call_step ev c w = (c, w)"
  by (auto simp: finished_def call_step_def split: pc.splits)













text \<open>
  Every call answers: a call needs at most two steps for each of its at most three
  attempts, whatever the other calls do in between.
\<close>

lemma call_step_progress:
  assumes "call_step ev c w = (c', w')" and "\<not> finished c"
  shows "steps_left c' < steps_left c"
  using assms
  by (auto simp: call_step_def caught_def catch_clause_def finished_def steps_left_def
      MAX_RETRIES_def Let_def
      split: pc.splits event.splits option.splits sum.splits if_splits prod.splits)


lemma steps_left_zero: "steps_left c = 0 \<longleftrightarrow> finished c"
  by (auto simp: steps_left_def finished_def split: pc.splits)

lemma sys_step_length: "length (calls (sys_step a s)) = length (calls s)"
  by (auto simp: sys_step_def split: prod.splits)

lemma sys_step_steps_left:
  assumes "i < length (calls s)"
  shows "steps_left (calls (sys_step a s) ! i) \<le>
         steps_left (calls s ! i) - (if fst a = i then 1 else 0)"
proof (cases a)
  case (Pair j ev)
  show ?thesis
  proof (cases "j = i")
    case False
    with Pair assms show ?thesis
      by (auto simp: sys_step_def split: prod.splits)
  next
    case True
    obtain c' w' where st: "call_step ev (calls s ! i) (shared s) = (c', w')"
      by (cases "call_step ev (calls s ! i) (shared s)")
    show ?thesis
    proof (cases "finished (calls s ! i)")
      case True
      then have "steps_left (calls s ! i) = 0" by (simp add: steps_left_zero)
      with True Pair \<open>j = i\<close> assms show ?thesis
        by (simp add: sys_step_def call_step_finished)
    next
      case False
      from call_step_progress[OF st False] st Pair \<open>j = i\<close> assms show ?thesis
        by (simp add: sys_step_def)
    qed
  qed
qed

lemma run_steps_left:
  assumes "i < length (calls s)"
  shows "steps_left (calls (run sched s) ! i) \<le>
         steps_left (calls s ! i) - count_list (map fst sched) i"
  using assms
proof (induction sched arbitrary: s)
  case Nil
  then show ?case by (simp add: run_def)
next
  case (Cons a sched)
  from Cons.prems have i: "i < length (calls (sys_step a s))"
    by (simp add: sys_step_length)
  from Cons.IH[OF i] have "steps_left (calls (run sched (sys_step a s)) ! i) \<le>
      steps_left (calls (sys_step a s) ! i) - count_list (map fst sched) i" .
  also from sys_step_steps_left[OF Cons.prems, of a]
  have "\<dots> \<le> steps_left (calls s ! i) - (if fst a = i then 1 else 0)
            - count_list (map fst sched) i"
    by (rule diff_le_mono)
  finally show ?case
    by (auto simp: run_def split: if_splits)
qed

lemma run_length: "length (calls (run sched s)) = length (calls s)"
  by (induction sched arbitrary: s) (simp_all add: run_def sys_step_length)

lemma calls_complete:
  assumes "\<forall>i<length ds. 6 \<le> count_list (map fst sched) i"
  shows "list_all finished (calls (run sched \<lparr>calls = map (new_call tid) ds, shared = w\<rparr>))"
proof -
  let ?s = "\<lparr>calls = map (new_call tid) ds, shared = w\<rparr>"
  have "finished (calls (run sched ?s) ! i)" if "i < length ds" for i
  proof -
    from that have "steps_left (calls (run sched ?s) ! i) \<le>
        steps_left (calls ?s ! i) - count_list (map fst sched) i"
      by (intro run_steps_left) simp
    moreover have "steps_left (calls ?s ! i) = 6"
      using that by (simp add: steps_left_def new_call_def MAX_RETRIES_def)
    moreover from assms that have "6 \<le> count_list (map fst sched) i" by simp
    ultimately show ?thesis by (simp add: steps_left_zero[symmetric])
  qed
  then show ?thesis
    by (simp add: list_all_length run_length)
qed

text \<open>
  The two models agree: the steps of a call through one attempt are one iteration of the
  loop, whatever other writers commit between its read and its update.
\<close>

lemma caught_pc: "caught x c w = (c', w') \<Longrightarrow> \<forall>u. pc c' \<noteq> AfterFind u"
  by (auto simp: caught_def split: prod.splits option.splits)

lemma attempt_steps_transaction:
  assumes "pc c = AtLoop" and "retries c < MAX_RETRIES"
  shows "attempt_steps e c w =
           (case transaction e (call_telegramId c) (call_points c) (db w) of
              (Inr result, d') \<Rightarrow>
                (c\<lparr>pc := Finished (Some (NextResponse_json result 200))\<rparr>,
                 w\<lparr>db := d', transactions := Suc (transactions w)\<rparr>)
            | (Inl error, d') \<Rightarrow>
                caught error c (w\<lparr>db := d', transactions := Suc (transactions w)\<rparr>))"
proof (cases "find_fault e")
  case (Some x)
  obtain c' w' where "caught x c (w\<lparr>transactions := Suc (transactions w)\<rparr>) = (c', w')"
    by (cases "caught x c (w\<lparr>transactions := Suc (transactions w)\<rparr>)")
  with Some assms caught_pc[OF this] show ?thesis
    by (cases "pc c'") (simp_all add: attempt_steps_def call_step_def transaction_def)
next
  case None
  show ?thesis
  proof (cases "db w (call_telegramId c)")
    case n: None
    obtain c' w' where "caught (Error ''User not found'') c
        (w\<lparr>transactions := Suc (transactions w)\<rparr>) = (c', w')"
      by (cases "caught (Error ''User not found'') c (w\<lparr>transactions := Suc (transactions w)\<rparr>)")
    with None n assms caught_pc[OF this] show ?thesis
      by (cases "pc c'")
        (simp_all add: attempt_steps_def call_step_def transaction_def user_findUnique_def)
  next
    case (Some dbUser)
    with None assms show ?thesis
      by (auto simp: attempt_steps_def call_step_def transaction_def user_findUnique_def
          caught_def catch_clause_def
          split: option.splits sum.splits prod.splits)
  qed
qed

lemma attempt_steps_award_loop:
  assumes "pc c = AtLoop" and "retries c < MAX_RETRIES"
    and "attempt_steps (env (retries c)) c w = (c', w')"
  shows "award_loop env (call_telegramId c) (call_points c) (retries c) w =
           (case pc c' of
              Finished r \<Rightarrow> (r, w')
            | _ \<Rightarrow> award_loop env (call_telegramId c') (call_points c') (retries c') w')"
  using assms(3) unfolding attempt_steps_transaction[OF assms(1,2)]
  by (subst award_loop.simps)
    (auto simp: assms(1,2) caught_def split: prod.splits sum.splits option.splits)

section \<open>Other amounts\<close>

text \<open>
  Amounts that are not whole numbers, and \<^verbatim>\<open>null\<close>. Half a point added to 100 is exact.
  A request with \<^verbatim>\<open>points: null\<close> passes the validation of line 16 (\<^verbatim>\<open>null < 0\<close> is
  false); the update refuses it in each of the three attempts and the call answers with
  status 500.
\<close>

lemma half_representable: "exactly_representable (201 / 2)"
proof -
  have "round_double (of_int 201 * 2 powi (- 1)) = of_int 201 * 2 powi (- 1)"
    by (rule round_double_fixed) simp_all
  then show ?thesis by (simp add: exactly_representable_def power_int_minus)
qed

lemma scenario_half_point:
  "rat_of (js_add (number_of_int 100) (to_number (1 / 2))) = Some (201 / 2)"
proof -
  have "round_double (of_int 1 * 2 powi (- 1)) = of_int 1 * 2 powi (- 1)"
    by (rule round_double_fixed) simp_all
  then have "exactly_representable (1 / 2)"
    by (simp add: exactly_representable_def power_int_minus)
  then have "rat_of (to_number (1 / 2)) = Some (1 / 2)" by (rule to_number_exact)
  moreover have "rat_of (number_of_int 100) = Some 100"
    using rat_of_number_of_int[of 100] by simp
  ultimately show ?thesis
    using js_add_exact[of "number_of_int 100" 100 "to_number (1 / 2)" "1 / 2"] half_representable
    by simp
qed

lemma scenario_null:
  "POST (always (quiet 2000)) (json_request ''u1'' Null) world1 =
     (Some \<lparr>status = 500, body = ErrorBody ''Failed to add points after multiple attempts''\<rparr>,
      \<lparr>db = [''u1'' \<mapsto> u1], console =
         [(''Max retries reached for fruit spinner points:'', invalid_increment)],
       sleeps = [200, 400], transactions = 3\<rparr>)"
proof -
  have t: "transaction (always (quiet 2000) k) ''u1'' Null [''u1'' \<mapsto> u1] =
      (Inl invalid_increment, [''u1'' \<mapsto> u1])" for k
    by (simp add: transaction_def always_def quiet_def user_findUnique_def user_update_def)
  have "POST (always (quiet 2000)) (json_request ''u1'' Null) world1 =
        award_loop (always (quiet 2000)) ''u1'' Null 0 world1"
    by (simp add: POST_def json_request_def)
  also have "\<dots> = award_loop (always (quiet 2000)) ''u1'' Null (Suc 0)
      \<lparr>db = [''u1'' \<mapsto> u1], console = [], sleeps = [200], transactions = 1\<rparr>"
    by (subst award_loop_retry[where x = invalid_increment and d' = "[''u1'' \<mapsto> u1]"])
      (simp_all add: t world1_def invalid_increment_retryable MAX_RETRIES_def RETRY_DELAY_def)
  also have "\<dots> = award_loop (always (quiet 2000)) ''u1'' Null (Suc (Suc 0))
      \<lparr>db = [''u1'' \<mapsto> u1], console = [], sleeps = [200, 400], transactions = 2\<rparr>"
    by (subst award_loop_retry[where x = invalid_increment and d' = "[''u1'' \<mapsto> u1]"])
      (simp_all add: t invalid_increment_retryable MAX_RETRIES_def RETRY_DELAY_def
        numeral_2_eq_2)
  also have "\<dots> = (Some \<lparr>status = 500,
        body = ErrorBody ''Failed to add points after multiple attempts''\<rparr>,
      \<lparr>db = [''u1'' \<mapsto> u1], console =
         [(''Max retries reached for fruit spinner points:'', invalid_increment)],
       sleeps = [200, 400], transactions = 3\<rparr>)"
    by (subst award_loop_exhausted[where x = invalid_increment and d' = "[''u1'' \<mapsto> u1]"])
      (simp_all add: t invalid_increment_retryable MAX_RETRIES_def NextResponse_json_def
        numeral_2_eq_2 numeral_3_eq_3)
  finally show ?thesis .
qed

end
